theory Spec2Isabelle
  imports Complex_Main
begin

section \<open>Values of the program\<close>

text \<open>
  The enumeration \<^verbatim>\<open>OPTION_TYPE\<close> of the source has two members; the attribute
  \<^verbatim>\<open>.value\<close> of a member is its display string.
\<close>

datatype OPTION_TYPE = CALL_OPTION | PUT_OPTION

fun option_value :: "OPTION_TYPE \<Rightarrow> string" where
  "option_value CALL_OPTION = ''Call Option''"
| "option_value PUT_OPTION = ''Put Option''"

text \<open>
  A floating-point number of the program: a finite value, which is a real number, one of
  the two infinities, or NaN. The sign of zero is not part of this model.
\<close>

datatype xfloat = Fin real | PInf | NInf | NaN

text \<open>
  The Python values a caller can pass as the selector of
  \<^verbatim>\<open>calculate_option_price\<close>, and the values it returns (a float from a hook,
  the integer \<^verbatim>\<open>-1\<close> from the last branch).
\<close>

datatype pyobj =
    PyStr string
  | PyEnum OPTION_TYPE
  | PyInt int
  | PyFloat xfloat
  | PyNone

datatype py_error = ZeroDivisionError | OverflowError

text \<open>
  \<^verbatim>\<open>a == b\<close> on these values. \<^verbatim>\<open>OPTION_TYPE\<close> derives from \<^verbatim>\<open>Enum\<close> only (it has
  no \<^verbatim>\<open>str\<close> mixin), so a member is equal to itself and to nothing else; numbers
  compare by value, and NaN is unequal to everything.
\<close>

fun xfloat_eq :: "xfloat \<Rightarrow> xfloat \<Rightarrow> bool" where
  "xfloat_eq NaN _ = False"
| "xfloat_eq _ NaN = False"
| "xfloat_eq a b = (a = b)"

fun py_eq :: "pyobj \<Rightarrow> pyobj \<Rightarrow> bool" where
  "py_eq (PyStr s) (PyStr t) = (s = t)"
| "py_eq (PyEnum a) (PyEnum b) = (a = b)"
| "py_eq (PyInt i) (PyInt j) = (i = j)"
| "py_eq (PyInt i) (PyFloat y) = xfloat_eq (Fin (real_of_int i)) y"
| "py_eq (PyFloat x) (PyInt j) = xfloat_eq x (Fin (real_of_int j))"
| "py_eq (PyFloat x) (PyFloat y) = xfloat_eq x y"
| "py_eq PyNone PyNone = True"
| "py_eq _ _ = False"

section \<open>Floating-point arithmetic\<close>

text \<open>
  Every arithmetic operation computes its exact result and hands it to a rounding, which
  gives the float the operation returns. The program runs on IEEE double precision,
  the rounding \<open>binary64\<close> below: round to nearest with ties to even on a significand of
  53 bits, gradual underflow below \<open>2 powi (- 1022)\<close>, and an infinity when the rounded
  value exceeds the largest double. The rounding \<open>exact\<close> returns the exact result: it
  is the arithmetic of the real numbers, in which the formulas of the program are
  read before any rounding.
\<close>

type_synonym rounding = "real \<Rightarrow> xfloat"

definition round_half_even :: "real \<Rightarrow> int" where
  "round_half_even y =
     (if y - of_int \<lfloor>y\<rfloor> < 1 / 2 then \<lfloor>y\<rfloor>
      else if 1 / 2 < y - of_int \<lfloor>y\<rfloor> then \<lfloor>y\<rfloor> + 1
      else if even \<lfloor>y\<rfloor> then \<lfloor>y\<rfloor> else \<lfloor>y\<rfloor> + 1)"

text \<open>
  The exponent of the unit in the last place of the doubles around \<open>x\<close>: \<open>52\<close> below the
  binary exponent of \<open>x\<close>, and \<open>- 1074\<close> in the subnormal range.
\<close>

definition ulp_exponent :: "real \<Rightarrow> int" where
  "ulp_exponent x = max \<lfloor>log 2 \<bar>x\<bar>\<rfloor> (- 1022) - 52"

definition round_double :: "real \<Rightarrow> real" where
  "round_double x =
     of_int (round_half_even (x / 2 powi ulp_exponent x)) * 2 powi ulp_exponent x"

text \<open>The largest double, \<open>(2 - 2 powi (- 52)) * 2 ^ 1023\<close>.\<close>

definition max_double :: real where
  "max_double = (2 ^ 53 - 1) * 2 ^ 971"

definition binary64 :: rounding where
  "binary64 x =
     (if \<bar>round_double x\<bar> \<le> max_double then Fin (round_double x)
      else if 0 < x then PInf else NInf)"

definition exact :: rounding where
  "exact x = Fin x"

section \<open>Floating-point operations\<close>

fun xneg :: "xfloat \<Rightarrow> xfloat" where
  "xneg (Fin a) = Fin (- a)"
| "xneg PInf = NInf"
| "xneg NInf = PInf"
| "xneg NaN = NaN"

fun xadd :: "rounding \<Rightarrow> xfloat \<Rightarrow> xfloat \<Rightarrow> xfloat" where
  "xadd rnd NaN _ = NaN"
| "xadd rnd _ NaN = NaN"
| "xadd rnd (Fin a) (Fin b) = rnd (a + b)"
| "xadd rnd PInf NInf = NaN"
| "xadd rnd NInf PInf = NaN"
| "xadd rnd PInf _ = PInf"
| "xadd rnd _ PInf = PInf"
| "xadd rnd NInf _ = NInf"
| "xadd rnd _ NInf = NInf"

definition xsub :: "rounding \<Rightarrow> xfloat \<Rightarrow> xfloat \<Rightarrow> xfloat" where
  "xsub rnd a b = xadd rnd a (xneg b)"

text \<open>The sign of a value: \<open>1\<close>, \<open>0\<close> or \<open>-1\<close> (NaN is handled by the callers).\<close>

fun xsgn :: "xfloat \<Rightarrow> real" where
  "xsgn (Fin a) = sgn a"
| "xsgn PInf = 1"
| "xsgn NInf = - 1"
| "xsgn NaN = 0"

definition inf_of_sign :: "real \<Rightarrow> xfloat" where
  "inf_of_sign s = (if s = 0 then NaN else if 0 < s then PInf else NInf)"

text \<open>
  Multiplication, of Python floats and of numpy's \<^verbatim>\<open>float64\<close> alike: a product that
  leaves the range of the doubles is an infinity, and nothing is raised.
\<close>

fun xmul :: "rounding \<Rightarrow> xfloat \<Rightarrow> xfloat \<Rightarrow> xfloat" where
  "xmul rnd NaN _ = NaN"
| "xmul rnd _ NaN = NaN"
| "xmul rnd (Fin a) (Fin b) = rnd (a * b)"
| "xmul rnd a b = inf_of_sign (xsgn a * xsgn b)"

text \<open>
  Division as numpy does it on \<^verbatim>\<open>float64\<close>: a zero divisor gives an infinity or NaN
  (with a warning), never an exception.
\<close>

fun np_div :: "rounding \<Rightarrow> xfloat \<Rightarrow> xfloat \<Rightarrow> xfloat" where
  "np_div rnd NaN _ = NaN"
| "np_div rnd _ NaN = NaN"
| "np_div rnd (Fin a) (Fin b) = (if b = 0 then inf_of_sign (sgn a) else rnd (a / b))"
| "np_div rnd (Fin a) _ = Fin 0"
| "np_div rnd a (Fin b) = inf_of_sign (xsgn a * (if b < 0 then - 1 else 1))"
| "np_div rnd _ _ = NaN"

text \<open>Division of Python floats: a zero divisor raises \<^verbatim>\<open>ZeroDivisionError\<close>.\<close>

definition py_truediv :: "rounding \<Rightarrow> xfloat \<Rightarrow> xfloat \<Rightarrow> py_error + xfloat" where
  "py_truediv rnd a b = (if b = Fin 0 then Inl ZeroDivisionError else Inr (np_div rnd a b))"

text \<open>The values that are not numbers: the two infinities and NaN.\<close>

fun nonfinite :: "xfloat \<Rightarrow> bool" where
  "nonfinite (Fin _) = False"
| "nonfinite _ = True"

text \<open>
  \<^verbatim>\<open>x ** 2\<close> on a Python float: a square of a finite number that leaves the range of
  the doubles raises \<^verbatim>\<open>OverflowError\<close>; a square that underflows is returned.
\<close>

fun float_pow2 :: "rounding \<Rightarrow> xfloat \<Rightarrow> py_error + xfloat" where
  "float_pow2 rnd (Fin a) =
     (if nonfinite (rnd (a * a)) then Inl OverflowError else Inr (rnd (a * a)))"
| "float_pow2 rnd NaN = Inr NaN"
| "float_pow2 rnd _ = Inr PInf"

text \<open>
  The functions of numpy. They are not part of the repository; each is taken to
  return the rounding of the exact value.
\<close>

fun np_log :: "rounding \<Rightarrow> xfloat \<Rightarrow> xfloat" where
  "np_log rnd (Fin a) = (if 0 < a then rnd (ln a) else if a = 0 then NInf else NaN)"
| "np_log rnd PInf = PInf"
| "np_log rnd _ = NaN"

fun np_sqrt :: "rounding \<Rightarrow> xfloat \<Rightarrow> xfloat" where
  "np_sqrt rnd (Fin a) = (if 0 \<le> a then rnd (sqrt a) else NaN)"
| "np_sqrt rnd PInf = PInf"
| "np_sqrt rnd _ = NaN"

fun np_exp :: "rounding \<Rightarrow> xfloat \<Rightarrow> xfloat" where
  "np_exp rnd (Fin a) = rnd (exp a)"
| "np_exp rnd PInf = PInf"
| "np_exp rnd NInf = Fin 0"
| "np_exp rnd NaN = NaN"

text \<open>
  \<^verbatim>\<open>scipy.stats.norm.cdf(x, loc, scale)\<close>: the cumulative distribution function of the
  normal distribution with mean \<open>loc\<close> and standard deviation \<open>scale\<close>. The library is
  not part of the repository: the standard normal distribution function \<open>Phi\<close> is a
  parameter of the model, and the library is taken to return the rounding of its
  value. Invalid arguments (a scale that is not positive, NaN) give NaN.
\<close>

fun norm_cdf :: "rounding \<Rightarrow> (real \<Rightarrow> real) \<Rightarrow> xfloat \<Rightarrow> real \<Rightarrow> real \<Rightarrow> xfloat" where
  "norm_cdf rnd Phi (Fin x) loc scale =
     (if 0 < scale then rnd (Phi ((x - loc) / scale)) else NaN)"
| "norm_cdf rnd Phi PInf loc scale = (if 0 < scale then Fin 1 else NaN)"
| "norm_cdf rnd Phi NInf loc scale = (if 0 < scale then Fin 0 else NaN)"
| "norm_cdf rnd Phi NaN loc scale = NaN"

section \<open>The pricing models\<close>

text \<open>
  \<^verbatim>\<open>OptionPricingModel.calculate_option_price\<close>. The two hooks are abstract in the
  base class; the dispatch takes them as parameters, the instance \<open>self\<close> being of any
  type.
\<close>

definition calculate_option_price ::
  "('m \<Rightarrow> py_error + pyobj) \<Rightarrow> ('m \<Rightarrow> py_error + pyobj) \<Rightarrow> 'm \<Rightarrow> pyobj \<Rightarrow> py_error + pyobj"
where
  "calculate_option_price call_hook put_hook self option_type =
     (if py_eq option_type (PyStr (option_value CALL_OPTION)) then call_hook self
      else if py_eq option_type (PyStr (option_value PUT_OPTION)) then put_hook self
      else Inr (PyInt (- 1)))"

text \<open>The instance state of \<^verbatim>\<open>BlackScholesModel\<close>.\<close>

record BlackScholesModel =
  S :: xfloat
  K :: xfloat
  T :: xfloat
  r :: xfloat
  sigma :: xfloat

text \<open>\<^verbatim>\<open>BlackScholesModel.__init__\<close>.\<close>

definition init ::
  "rounding \<Rightarrow> xfloat \<Rightarrow> xfloat \<Rightarrow> xfloat \<Rightarrow> xfloat \<Rightarrow> xfloat
     \<Rightarrow> py_error + BlackScholesModel"
where
  "init rnd underlying_spot_price strike_price days_to_maturity risk_free_rate sigma' =
     (case py_truediv rnd days_to_maturity (Fin 365) of
        Inl e \<Rightarrow> Inl e
      | Inr t \<Rightarrow> Inr \<lparr>S = underlying_spot_price, K = strike_price, T = t,
                      r = risk_free_rate, sigma = sigma'\<rparr>)"

text \<open>
  The two intermediate terms, written in the source once in each hook. The operands
  are evaluated from left to right: the quotient \<^verbatim>\<open>self.S / self.K\<close>, a division of
  Python floats, comes first and \<^verbatim>\<open>self.sigma ** 2\<close> after it; everything that involves
  the result of \<^verbatim>\<open>np.log\<close> or \<^verbatim>\<open>np.sqrt\<close> is numpy arithmetic.
\<close>

definition d1 :: "rounding \<Rightarrow> BlackScholesModel \<Rightarrow> py_error + xfloat" where
  "d1 rnd self =
     (case py_truediv rnd (S self) (K self) of
        Inl e \<Rightarrow> Inl e
      | Inr q \<Rightarrow>
          (case float_pow2 rnd (sigma self) of
             Inl e \<Rightarrow> Inl e
           | Inr v \<Rightarrow>
               Inr (np_div rnd
                      (xadd rnd (np_log rnd q)
                         (xmul rnd (xadd rnd (r self) (xmul rnd (Fin 0.5) v)) (T self)))
                      (xmul rnd (sigma self) (np_sqrt rnd (T self))))))"

definition d2 :: "rounding \<Rightarrow> BlackScholesModel \<Rightarrow> py_error + xfloat" where
  "d2 rnd self =
     (case py_truediv rnd (S self) (K self) of
        Inl e \<Rightarrow> Inl e
      | Inr q \<Rightarrow>
          (case float_pow2 rnd (sigma self) of
             Inl e \<Rightarrow> Inl e
           | Inr v \<Rightarrow>
               Inr (np_div rnd
                      (xadd rnd (np_log rnd q)
                         (xmul rnd (xsub rnd (r self) (xmul rnd (Fin 0.5) v)) (T self)))
                      (xmul rnd (sigma self) (np_sqrt rnd (T self))))))"

text \<open>\<^verbatim>\<open>BlackScholesModel._calculate_call_option_price\<close>.\<close>

definition calculate_call_option_price ::
  "rounding \<Rightarrow> (real \<Rightarrow> real) \<Rightarrow> BlackScholesModel \<Rightarrow> py_error + pyobj"
where
  "calculate_call_option_price rnd Phi self =
     (case d1 rnd self of
        Inl e \<Rightarrow> Inl e
      | Inr x1 \<Rightarrow>
          (case d2 rnd self of
             Inl e \<Rightarrow> Inl e
           | Inr x2 \<Rightarrow>
               Inr (PyFloat
                 (xsub rnd
                    (xmul rnd (S self) (norm_cdf rnd Phi x1 0.0 1.0))
                    (xmul rnd
                       (xmul rnd (K self) (np_exp rnd (xmul rnd (xneg (r self)) (T self))))
                       (norm_cdf rnd Phi x2 0.0 1.0))))))"

text \<open>\<^verbatim>\<open>BlackScholesModel._calculate_put_option_price\<close>.\<close>

definition calculate_put_option_price ::
  "rounding \<Rightarrow> (real \<Rightarrow> real) \<Rightarrow> BlackScholesModel \<Rightarrow> py_error + pyobj"
where
  "calculate_put_option_price rnd Phi self =
     (case d1 rnd self of
        Inl e \<Rightarrow> Inl e
      | Inr x1 \<Rightarrow>
          (case d2 rnd self of
             Inl e \<Rightarrow> Inl e
           | Inr x2 \<Rightarrow>
               Inr (PyFloat
                 (xsub rnd
                    (xmul rnd
                       (xmul rnd (K self) (np_exp rnd (xmul rnd (xneg (r self)) (T self))))
                       (norm_cdf rnd Phi (xneg x2) 0.0 1.0))
                    (xmul rnd (S self) (norm_cdf rnd Phi (xneg x1) 0.0 1.0))))))"

text \<open>The public entry point of a \<^verbatim>\<open>BlackScholesModel\<close> instance.\<close>

definition bs_calculate_option_price ::
  "rounding \<Rightarrow> (real \<Rightarrow> real) \<Rightarrow> BlackScholesModel \<Rightarrow> pyobj \<Rightarrow> py_error + pyobj"
where
  "bs_calculate_option_price rnd Phi =
     calculate_option_price
       (calculate_call_option_price rnd Phi) (calculate_put_option_price rnd Phi)"

text \<open>
  The methods of a \<^verbatim>\<open>BlackScholesModel\<close> instance as steps on its state: a call
  returns its result and the instance as the method leaves it. No method of the source
  assigns to a field of \<^verbatim>\<open>self\<close>.
\<close>

datatype operation =
    Calculate_option_price pyobj
  | Calculate_call_option_price
  | Calculate_put_option_price

fun call_method ::
  "rounding \<Rightarrow> (real \<Rightarrow> real) \<Rightarrow> BlackScholesModel \<Rightarrow> operation
     \<Rightarrow> (py_error + pyobj) \<times> BlackScholesModel"
where
  "call_method rnd Phi self (Calculate_option_price option_type) =
     (bs_calculate_option_price rnd Phi self option_type, self)"
| "call_method rnd Phi self Calculate_call_option_price =
     (calculate_call_option_price rnd Phi self, self)"
| "call_method rnd Phi self Calculate_put_option_price =
     (calculate_put_option_price rnd Phi self, self)"

fun call_methods ::
  "rounding \<Rightarrow> (real \<Rightarrow> real) \<Rightarrow> BlackScholesModel \<Rightarrow> operation list
     \<Rightarrow> (py_error + pyobj) list \<times> BlackScholesModel"
where
  "call_methods rnd Phi self [] = ([], self)"
| "call_methods rnd Phi self (c # cs) =
     (case call_method rnd Phi self c of
        (res, self') \<Rightarrow>
          (case call_methods rnd Phi self' cs of (rs, self'') \<Rightarrow> (res # rs, self'')))"

section \<open>The standard normal distribution function\<close>

text \<open>
  The primitive of \<open>exp (- x\<^sup>2 / 2)\<close> that vanishes at \<open>0\<close>, as a power series, and the
  distribution function built from it.
\<close>

definition gauss_primitive :: "real \<Rightarrow> real" where
  "gauss_primitive x =
     (\<Sum>n. (- 1) ^ n * x ^ (2 * n + 1) / (2 ^ n * fact n * real (2 * n + 1)))"

definition std_normal_cdf :: "real \<Rightarrow> real" where
  "std_normal_cdf x = 1 / 2 + gauss_primitive x / sqrt (2 * pi)"


text \<open>
  The density of the standard normal distribution, and what it means for a function
  to be its distribution function: the derivative is the density everywhere and the
  function tends to \<open>0\<close> at \<open>-\<infinity>\<close>.
\<close>

definition standard_normal_density :: "real \<Rightarrow> real" where
  "standard_normal_density x = exp (- x\<^sup>2 / 2) / sqrt (2 * pi)"

definition is_standard_normal_cdf :: "(real \<Rightarrow> real) \<Rightarrow> bool" where
  "is_standard_normal_cdf Phi \<longleftrightarrow>
     (\<forall>x. (Phi has_real_derivative standard_normal_density x) (at x)) \<and> (Phi \<longlongrightarrow> 0) at_bot"

text \<open>The coefficients of \<open>gauss_primitive\<close> as a power series in \<open>x\<close>.\<close>

definition gauss_coeff :: "nat \<Rightarrow> real" where
  "gauss_coeff k =
     (if even k then 0
      else (- 1) ^ ((k - 1) div 2) / (2 ^ ((k - 1) div 2) * fact ((k - 1) div 2) * real k))"

text \<open>
  The primitive of \<open>cos x ^ m\<close> that vanishes at \<open>0\<close>, by the reduction formula, and
  its value at \<open>pi / 2\<close>.
\<close>

fun cos_int :: "nat \<Rightarrow> real \<Rightarrow> real" where
  "cos_int 0 x = x"
| "cos_int (Suc 0) x = sin x"
| "cos_int (Suc (Suc m)) x =
     (cos x ^ Suc m * sin x + real (Suc m) * cos_int m x) / real (Suc (Suc m))"

definition wallis :: "nat \<Rightarrow> real" where
  "wallis m = cos_int m (pi / 2)"

section \<open>Rounding to double precision\<close>

lemma ulp_exponent_eq:
  assumes "2 powi e \<le> \<bar>x\<bar>" and "\<bar>x\<bar> < 2 powi (e + 1)"
  shows "ulp_exponent x = max e (- 1022) - 52"
proof -
  have "(0::real) < 2 powi e" by simp
  then have pos: "0 < \<bar>x\<bar>" using assms(1) by linarith
  have 1: "2 powr real_of_int e \<le> \<bar>x\<bar>"
    using assms(1) by (simp add: powr_real_of_int')
  have "(2::real) powr real_of_int (e + 1) = 2 powi (e + 1)"
    by (rule powr_real_of_int') simp_all
  then have 2: "\<bar>x\<bar> < 2 powr real_of_int (e + 1)"
    using assms(2) by simp
  have "\<lfloor>log 2 \<bar>x\<bar>\<rfloor> = e"
    using pos 1 2 by (subst floor_log_eq_powr_iff) simp_all
  then show ?thesis by (simp add: ulp_exponent_def)
qed

lemma round_double_eq:
  assumes "2 powi e \<le> \<bar>x\<bar>" and "\<bar>x\<bar> < 2 powi (e + 1)"
  shows "round_double x =
           of_int (round_half_even (x / 2 powi (max e (- 1022) - 52)))
             * 2 powi (max e (- 1022) - 52)"
  by (simp add: round_double_def ulp_exponent_eq [OF assms])

text \<open>
  The double that \<open>binary64\<close> returns for a number \<open>x\<close> whose binary exponent \<open>e\<close> is
  known.
\<close>

lemma binary64_eqI:
  assumes "2 powi e \<le> \<bar>x\<bar>" and "\<bar>x\<bar> < 2 powi (e + 1)"
    and "of_int (round_half_even (x / 2 powi (max e (- 1022) - 52)))
             * 2 powi (max e (- 1022) - 52) = y"
    and "\<bar>y\<bar> \<le> max_double"
  shows "binary64 x = Fin y"
  using assms(3,4) by (simp add: binary64_def round_double_eq [OF assms(1,2)])

lemma binary64_0: "binary64 0 = Fin 0"
  by (simp add: binary64_def round_double_def round_half_even_def max_double_def)

lemma binary64_1: "binary64 1 = Fin 1"
  by (rule binary64_eqI [where e = 0]) (simp_all add: round_half_even_def max_double_def)


lemma binary64_quarter: "binary64 (1 / 4) = Fin (1 / 4)"
  by (rule binary64_eqI [where e = "- 2"]) (simp_all add: round_half_even_def max_double_def)

lemma binary64_eighth: "binary64 (1 / 8) = Fin (1 / 8)"
  by (rule binary64_eqI [where e = "- 3"]) (simp_all add: round_half_even_def max_double_def)

lemma binary64_three_eighths: "binary64 (3 / 8) = Fin (3 / 8)"
  by (rule binary64_eqI [where e = "- 2"]) (simp_all add: round_half_even_def max_double_def)

lemma binary64_sixteenth: "binary64 (1 / 16) = Fin (1 / 16)"
  by (rule binary64_eqI [where e = "- 4"]) (simp_all add: round_half_even_def max_double_def)

lemma binary64_minus_sixteenth: "binary64 (- (1 / 16)) = Fin (- (1 / 16))"
  by (rule binary64_eqI [where e = "- 4"]) (simp_all add: round_half_even_def max_double_def)

lemma binary64_thirty_second: "binary64 (1 / 32) = Fin (1 / 32)"
  by (rule binary64_eqI [where e = "- 5"]) (simp_all add: round_half_even_def max_double_def)

lemma binary64_three_thirty_seconds: "binary64 (3 / 32) = Fin (3 / 32)"
  by (rule binary64_eqI [where e = "- 4"]) (simp_all add: round_half_even_def max_double_def)

lemma binary64_nine_sixteenths: "binary64 (9 / 16) = Fin (9 / 16)"
  by (rule binary64_eqI [where e = "- 1"]) (simp_all add: round_half_even_def max_double_def)

lemma square_overflow: "nonfinite (binary64 (2 ^ 600 * 2 ^ 600))"
  using round_double_eq [of 1200 "2 ^ 600 * 2 ^ 600"]
  by (simp add: binary64_def round_half_even_def max_double_def)

section \<open>Dispatch on the selector\<close>

text \<open>
  C3. For every model instance (every pair of hooks and every state) and every selector:
  the selector \<open>'Call Option'\<close> gives the result of the call hook, the selector
  \<open>'Put Option'\<close> the result of the put hook, and every other selector gives the integer
  \<open>-1\<close> without raising, whatever the stored parameters are.
\<close>

theorem calculate_option_price_dispatch:
  "calculate_option_price call_hook put_hook self option_type =
     (if option_type = PyStr ''Call Option'' then call_hook self
      else if option_type = PyStr ''Put Option'' then put_hook self
      else Inr (PyInt (- 1)))"
  by (cases option_type) (simp_all add: calculate_option_price_def)

theorem calculate_option_price_dispatch_witness:
  "bs_calculate_option_price binary64 std_normal_cdf
       \<lparr>S = Fin 100, K = Fin 100, T = Fin 1, r = Fin 0.05, sigma = Fin 0.2\<rparr>
       (PyStr ''Call Option'')
     = calculate_call_option_price binary64 std_normal_cdf
         \<lparr>S = Fin 100, K = Fin 100, T = Fin 1, r = Fin 0.05, sigma = Fin 0.2\<rparr>
   \<and> bs_calculate_option_price binary64 std_normal_cdf
       \<lparr>S = Fin 100, K = Fin 100, T = Fin 1, r = Fin 0.05, sigma = Fin 0.2\<rparr>
       (PyStr ''Put Option'')
     = calculate_put_option_price binary64 std_normal_cdf
         \<lparr>S = Fin 100, K = Fin 100, T = Fin 1, r = Fin 0.05, sigma = Fin 0.2\<rparr>
   \<and> bs_calculate_option_price binary64 std_normal_cdf
       \<lparr>S = Fin 100, K = Fin 0, T = Fin 0, r = NaN, sigma = Fin 0\<rparr>
       (PyStr ''Straddle'')
     = Inr (PyInt (- 1))"
  unfolding bs_calculate_option_price_def
  by (simp add: calculate_option_price_dispatch)

text \<open>
  C10. Passing a member of the enumeration itself, and not its display string, matches
  neither branch: the result is the integer \<open>-1\<close>.
\<close>

theorem calculate_option_price_enum_member:
  "calculate_option_price call_hook put_hook self (PyEnum member) = Inr (PyInt (- 1))"
  by (simp add: calculate_option_price_def)

section \<open>The Black-Scholes formulas\<close>

lemma d1_value:
  assumes "0 < s" and "0 < k" and "0 < t" and "0 < sg"
  shows "d1 rnd \<lparr>S = Fin s, K = Fin k, T = Fin t, r = Fin rate, sigma = Fin sg\<rparr> =
         (if nonfinite (rnd (sg * sg)) then Inl OverflowError
          else Inr (np_div rnd
                 (xadd rnd (np_log rnd (rnd (s / k)))
                    (xmul rnd (xadd rnd (Fin rate) (xmul rnd (Fin 0.5) (rnd (sg * sg))))
                       (Fin t)))
                 (xmul rnd (Fin sg) (rnd (sqrt t)))))"
  using assms by (simp add: d1_def py_truediv_def)

lemma d2_value:
  assumes "0 < s" and "0 < k" and "0 < t" and "0 < sg"
  shows "d2 rnd \<lparr>S = Fin s, K = Fin k, T = Fin t, r = Fin rate, sigma = Fin sg\<rparr> =
         (if nonfinite (rnd (sg * sg)) then Inl OverflowError
          else Inr (np_div rnd
                 (xadd rnd (np_log rnd (rnd (s / k)))
                    (xmul rnd (xsub rnd (Fin rate) (xmul rnd (Fin 0.5) (rnd (sg * sg))))
                       (Fin t)))
                 (xmul rnd (Fin sg) (rnd (sqrt t)))))"
  using assms by (simp add: d2_def py_truediv_def)

lemma d1_exact:
  assumes "0 < s" and "0 < k" and "0 < t" and "0 < sg"
  shows "d1 exact \<lparr>S = Fin s, K = Fin k, T = Fin t, r = Fin rate, sigma = Fin sg\<rparr> =
         Inr (Fin ((ln (s / k) + (rate + 0.5 * sg\<^sup>2) * t) / (sg * sqrt t)))"
  using assms by (simp add: d1_def py_truediv_def exact_def power2_eq_square)

lemma d2_exact:
  assumes "0 < s" and "0 < k" and "0 < t" and "0 < sg"
  shows "d2 exact \<lparr>S = Fin s, K = Fin k, T = Fin t, r = Fin rate, sigma = Fin sg\<rparr> =
         Inr (Fin ((ln (s / k) + (rate - 0.5 * sg\<^sup>2) * t) / (sg * sqrt t)))"
  using assms by (simp add: d2_def py_truediv_def exact_def xsub_def power2_eq_square)

lemma call_hook_exact:
  assumes "0 < s" and "0 < k" and "0 < t" and "0 < sg"
  shows "calculate_call_option_price exact Phi
           \<lparr>S = Fin s, K = Fin k, T = Fin t, r = Fin rate, sigma = Fin sg\<rparr> =
         Inr (PyFloat (Fin
           (s * Phi ((ln (s / k) + (rate + 0.5 * sg\<^sup>2) * t) / (sg * sqrt t))
            - k * exp (- rate * t)
                * Phi ((ln (s / k) + (rate - 0.5 * sg\<^sup>2) * t) / (sg * sqrt t)))))"
  by (simp add: calculate_call_option_price_def d1_exact [OF assms] d2_exact [OF assms]
      exact_def xsub_def)

lemma put_hook_exact:
  assumes "0 < s" and "0 < k" and "0 < t" and "0 < sg"
  shows "calculate_put_option_price exact Phi
           \<lparr>S = Fin s, K = Fin k, T = Fin t, r = Fin rate, sigma = Fin sg\<rparr> =
         Inr (PyFloat (Fin
           (k * exp (- rate * t)
              * Phi (- ((ln (s / k) + (rate - 0.5 * sg\<^sup>2) * t) / (sg * sqrt t)))
            - s * Phi (- ((ln (s / k) + (rate + 0.5 * sg\<^sup>2) * t) / (sg * sqrt t))))))"
  by (simp add: calculate_put_option_price_def d1_exact [OF assms] d2_exact [OF assms]
      exact_def xsub_def)

text \<open>
  C1, as the claim states it, fails: it holds of every \<open>sigma > 0\<close> that the hook
  returns the value of the formula, but for a volatility whose square is beyond the
  largest double, here \<open>2 ^ 600\<close>, the power \<^verbatim>\<open>self.sigma ** 2\<close> raises
  \<^verbatim>\<open>OverflowError\<close> and the hook returns nothing.
\<close>

theorem call_option_price_overflow:
  "calculate_call_option_price binary64 std_normal_cdf
     \<lparr>S = Fin 100, K = Fin 100, T = Fin 1, r = Fin (1 / 16), sigma = Fin (2 ^ 600)\<rparr> =
   Inl OverflowError"
proof -
  have "d1 binary64
          \<lparr>S = Fin 100, K = Fin 100, T = Fin 1, r = Fin (1 / 16), sigma = Fin (2 ^ 600)\<rparr> =
        Inl OverflowError"
    using d1_value [of 100 100 1 "2 ^ 600" binary64 "1 / 16"] square_overflow by simp
  then show ?thesis
    by (simp add: calculate_call_option_price_def)
qed

text \<open>
  C1, amended. For stored parameters \<open>S > 0\<close>, \<open>K > 0\<close>, \<open>T > 0\<close>, \<open>sigma > 0\<close> and any
  rate \<open>r\<close>, in every arithmetic: if the square of \<open>sigma\<close> leaves the range of the
  floats, the call hook raises \<^verbatim>\<open>OverflowError\<close>; otherwise it returns the value of
  \<open>S * Phi d1 - K * exp (- r * T) * Phi d2\<close> with
  \<open>d1 = (ln (S / K) + (r + 0.5 * sigma\<^sup>2) * T) / (sigma * sqrt T)\<close> and
  \<open>d2 = (ln (S / K) + (r - 0.5 * sigma\<^sup>2) * T) / (sigma * sqrt T)\<close>, every operation
  of the formula being rounded, where \<open>Phi\<close> is the distribution function of the normal
  distribution with mean 0 and standard deviation 1. In exact arithmetic the value
  is the real number that the formula denotes.
\<close>

theorem call_option_price_formula:
  assumes "0 < s" and "0 < k" and "0 < t" and "0 < sg"
  shows "calculate_call_option_price rnd Phi
           \<lparr>S = Fin s, K = Fin k, T = Fin t, r = Fin rate, sigma = Fin sg\<rparr> =
         (if nonfinite (rnd (sg * sg)) then Inl OverflowError
          else
            let lg = np_log rnd (rnd (s / k));
                hv = xmul rnd (Fin 0.5) (rnd (sg * sg));
                dn = xmul rnd (Fin sg) (rnd (sqrt t));
                x1 = np_div rnd (xadd rnd lg (xmul rnd (xadd rnd (Fin rate) hv) (Fin t))) dn;
                x2 = np_div rnd (xadd rnd lg (xmul rnd (xsub rnd (Fin rate) hv) (Fin t))) dn
            in Inr (PyFloat
                 (xsub rnd
                    (xmul rnd (Fin s) (norm_cdf rnd Phi x1 0 1))
                    (xmul rnd
                       (xmul rnd (Fin k) (np_exp rnd (xmul rnd (Fin (- rate)) (Fin t))))
                       (norm_cdf rnd Phi x2 0 1)))))
       \<and> calculate_call_option_price exact Phi
           \<lparr>S = Fin s, K = Fin k, T = Fin t, r = Fin rate, sigma = Fin sg\<rparr> =
         Inr (PyFloat (Fin
           (s * Phi ((ln (s / k) + (rate + 0.5 * sg\<^sup>2) * t) / (sg * sqrt t))
            - k * exp (- rate * t)
                * Phi ((ln (s / k) + (rate - 0.5 * sg\<^sup>2) * t) / (sg * sqrt t)))))"
proof (rule conjI)
  show "calculate_call_option_price rnd Phi
          \<lparr>S = Fin s, K = Fin k, T = Fin t, r = Fin rate, sigma = Fin sg\<rparr> =
        (if nonfinite (rnd (sg * sg)) then Inl OverflowError
         else
           let lg = np_log rnd (rnd (s / k));
               hv = xmul rnd (Fin 0.5) (rnd (sg * sg));
               dn = xmul rnd (Fin sg) (rnd (sqrt t));
               x1 = np_div rnd (xadd rnd lg (xmul rnd (xadd rnd (Fin rate) hv) (Fin t))) dn;
               x2 = np_div rnd (xadd rnd lg (xmul rnd (xsub rnd (Fin rate) hv) (Fin t))) dn
           in Inr (PyFloat
                (xsub rnd
                   (xmul rnd (Fin s) (norm_cdf rnd Phi x1 0 1))
                   (xmul rnd
                      (xmul rnd (Fin k) (np_exp rnd (xmul rnd (Fin (- rate)) (Fin t))))
                      (norm_cdf rnd Phi x2 0 1)))))"
    by (simp add: calculate_call_option_price_def d1_value [OF assms] d2_value [OF assms]
        Let_def)
qed (rule call_hook_exact [OF assms])

theorem call_option_price_formula_witness:
  "(0::real) < 100 \<and> (0::real) < 1 \<and> (0::real) < 1 / 4
   \<and> calculate_call_option_price binary64 std_normal_cdf
       \<lparr>S = Fin 100, K = Fin 100, T = Fin 1, r = Fin (1 / 16), sigma = Fin (1 / 4)\<rparr> =
     Inr (PyFloat
       (xsub binary64
          (xmul binary64 (Fin 100) (binary64 (std_normal_cdf (3 / 8))))
          (xmul binary64 (xmul binary64 (Fin 100) (binary64 (exp (- (1 / 16)))))
             (binary64 (std_normal_cdf (1 / 8))))))
   \<and> calculate_call_option_price exact std_normal_cdf
       \<lparr>S = Fin 100, K = Fin 100, T = Fin 1, r = Fin (1 / 16), sigma = Fin (1 / 4)\<rparr> =
     Inr (PyFloat (Fin
       (100 * std_normal_cdf (3 / 8) - 100 * exp (- (1 / 16)) * std_normal_cdf (1 / 8))))"
  using call_option_price_formula [of 100 100 1 "1 / 4" binary64 std_normal_cdf "1 / 16"]
  by (simp add: Let_def xsub_def power2_eq_square binary64_0 binary64_1 binary64_sixteenth
      binary64_thirty_second binary64_three_thirty_seconds binary64_quarter
      binary64_three_eighths binary64_eighth binary64_minus_sixteenth)

text \<open>
  C2, as the claim states it, fails in the same way: with \<open>sigma = 2 ^ 600\<close> the put
  hook raises \<^verbatim>\<open>OverflowError\<close>.
\<close>

theorem put_option_price_overflow:
  "calculate_put_option_price binary64 std_normal_cdf
     \<lparr>S = Fin 50, K = Fin 60, T = Fin 1, r = Fin (1 / 16), sigma = Fin (2 ^ 600)\<rparr> =
   Inl OverflowError"
proof -
  have "d1 binary64
          \<lparr>S = Fin 50, K = Fin 60, T = Fin 1, r = Fin (1 / 16), sigma = Fin (2 ^ 600)\<rparr> =
        Inl OverflowError"
    using d1_value [of 50 60 1 "2 ^ 600" binary64 "1 / 16"] square_overflow by simp
  then show ?thesis
    by (simp add: calculate_put_option_price_def)
qed

text \<open>
  C2, amended. Under the same conditions, in every arithmetic: if the square of
  \<open>sigma\<close> leaves the range of the floats, the put hook raises \<^verbatim>\<open>OverflowError\<close>;
  otherwise it returns the value of \<open>K * exp (- r * T) * Phi (- d2) - S * Phi (- d1)\<close>,
  every operation being rounded, with \<open>d1\<close> and \<open>d2\<close> as in the call formula. In exact
  arithmetic the value is the real number that the formula denotes.
\<close>

theorem put_option_price_formula:
  assumes "0 < s" and "0 < k" and "0 < t" and "0 < sg"
  shows "calculate_put_option_price rnd Phi
           \<lparr>S = Fin s, K = Fin k, T = Fin t, r = Fin rate, sigma = Fin sg\<rparr> =
         (if nonfinite (rnd (sg * sg)) then Inl OverflowError
          else
            let lg = np_log rnd (rnd (s / k));
                hv = xmul rnd (Fin 0.5) (rnd (sg * sg));
                dn = xmul rnd (Fin sg) (rnd (sqrt t));
                x1 = np_div rnd (xadd rnd lg (xmul rnd (xadd rnd (Fin rate) hv) (Fin t))) dn;
                x2 = np_div rnd (xadd rnd lg (xmul rnd (xsub rnd (Fin rate) hv) (Fin t))) dn
            in Inr (PyFloat
                 (xsub rnd
                    (xmul rnd
                       (xmul rnd (Fin k) (np_exp rnd (xmul rnd (Fin (- rate)) (Fin t))))
                       (norm_cdf rnd Phi (xneg x2) 0 1))
                    (xmul rnd (Fin s) (norm_cdf rnd Phi (xneg x1) 0 1)))))
       \<and> calculate_put_option_price exact Phi
           \<lparr>S = Fin s, K = Fin k, T = Fin t, r = Fin rate, sigma = Fin sg\<rparr> =
         Inr (PyFloat (Fin
           (k * exp (- rate * t)
              * Phi (- ((ln (s / k) + (rate - 0.5 * sg\<^sup>2) * t) / (sg * sqrt t)))
            - s * Phi (- ((ln (s / k) + (rate + 0.5 * sg\<^sup>2) * t) / (sg * sqrt t))))))"
proof (rule conjI)
  show "calculate_put_option_price rnd Phi
          \<lparr>S = Fin s, K = Fin k, T = Fin t, r = Fin rate, sigma = Fin sg\<rparr> =
        (if nonfinite (rnd (sg * sg)) then Inl OverflowError
         else
           let lg = np_log rnd (rnd (s / k));
               hv = xmul rnd (Fin 0.5) (rnd (sg * sg));
               dn = xmul rnd (Fin sg) (rnd (sqrt t));
               x1 = np_div rnd (xadd rnd lg (xmul rnd (xadd rnd (Fin rate) hv) (Fin t))) dn;
               x2 = np_div rnd (xadd rnd lg (xmul rnd (xsub rnd (Fin rate) hv) (Fin t))) dn
           in Inr (PyFloat
                (xsub rnd
                   (xmul rnd
                      (xmul rnd (Fin k) (np_exp rnd (xmul rnd (Fin (- rate)) (Fin t))))
                      (norm_cdf rnd Phi (xneg x2) 0 1))
                   (xmul rnd (Fin s) (norm_cdf rnd Phi (xneg x1) 0 1)))))"
    by (simp add: calculate_put_option_price_def d1_value [OF assms] d2_value [OF assms]
        Let_def)
qed (rule put_hook_exact [OF assms])

theorem put_option_price_formula_witness:
  "(0::real) < 100 \<and> (0::real) < 1 \<and> (0::real) < 1 / 4
   \<and> calculate_put_option_price binary64 std_normal_cdf
       \<lparr>S = Fin 100, K = Fin 100, T = Fin 1, r = Fin (1 / 16), sigma = Fin (1 / 4)\<rparr> =
     Inr (PyFloat
       (xsub binary64
          (xmul binary64 (xmul binary64 (Fin 100) (binary64 (exp (- (1 / 16)))))
             (binary64 (std_normal_cdf (- (1 / 8)))))
          (xmul binary64 (Fin 100) (binary64 (std_normal_cdf (- (3 / 8)))))))
   \<and> calculate_put_option_price exact std_normal_cdf
       \<lparr>S = Fin 100, K = Fin 100, T = Fin 1, r = Fin (1 / 16), sigma = Fin (1 / 4)\<rparr> =
     Inr (PyFloat (Fin
       (100 * exp (- (1 / 16)) * std_normal_cdf (- (1 / 8))
        - 100 * std_normal_cdf (- (3 / 8)))))"
  using put_option_price_formula [of 100 100 1 "1 / 4" binary64 std_normal_cdf "1 / 16"]
  by (simp add: Let_def xsub_def power2_eq_square binary64_0 binary64_1 binary64_sixteenth
      binary64_thirty_second binary64_three_thirty_seconds binary64_quarter
      binary64_three_eighths binary64_eighth binary64_minus_sixteenth)

section \<open>Construction and state\<close>

lemma call_methods_unchanged:
  "call_methods rnd Phi self cs = (map (\<lambda>c. fst (call_method rnd Phi self c)) cs, self)"
proof (induction cs)
  case Nil
  show ?case by simp
next
  case (Cons c cs)
  obtain res where "call_method rnd Phi self c = (res, self)"
    by (cases c) simp_all
  then show ?case using Cons.IH by simp
qed

text \<open>
  C6. The constructor stores the spot price, the strike, the rate and the volatility as
  they are given and the time to maturity as \<open>days_to_maturity / 365\<close>, the quotient of
  the arithmetic; it never fails. A method call leaves the instance as it was, so after
  any sequence of calls the state is the constructed one and every result is the result
  of that call on the constructed instance.
\<close>

theorem init_stores_parameters:
  "init rnd s k days rate sg =
     Inr \<lparr>S = s, K = k, T = np_div rnd days (Fin 365), r = rate, sigma = sg\<rparr>
   \<and> np_div rnd (Fin x) (Fin 365) = rnd (x / 365)
   \<and> np_div exact (Fin x) (Fin 365) = Fin (x / 365)
   \<and> snd (call_method rnd Phi self c) = self
   \<and> call_methods rnd Phi self cs = (map (\<lambda>c. fst (call_method rnd Phi self c)) cs, self)"
proof -
  have "snd (call_method rnd Phi self c) = self" by (cases c) simp_all
  then show ?thesis
    by (simp add: init_def py_truediv_def call_methods_unchanged exact_def)
qed

section \<open>Zero volatility and zero time to maturity\<close>

lemma inf_of_sign_nonfinite: "nonfinite (inf_of_sign s)"
  by (simp add: inf_of_sign_def)

lemma np_div_zero_nonfinite: "b = Fin 0 \<or> b = NaN \<Longrightarrow> nonfinite (np_div rnd a b)"
  by (cases a) (auto simp: inf_of_sign_nonfinite)

lemma denominator_zero:
  assumes "sg = Fin 0 \<or> t = Fin 0"
  shows "xmul binary64 sg (np_sqrt binary64 t) = Fin 0
       \<or> xmul binary64 sg (np_sqrt binary64 t) = NaN"
proof (cases "sg = Fin 0")
  case True
  then show ?thesis
    by (cases "np_sqrt binary64 t") (simp_all add: binary64_0 inf_of_sign_def)
next
  case False
  then have "t = Fin 0" using assms by simp
  then show ?thesis
    by (cases sg) (simp_all add: binary64_0 inf_of_sign_def)
qed

text \<open>
  C8, as the claim states it, fails: with \<open>days_to_maturity = 0\<close>, and with
  \<open>sigma = 0\<close>, construction succeeds and the call price of an at-the-money option is
  returned as NaN; nothing is raised.
\<close>

theorem zero_maturity_returns_nan:
  "init binary64 (Fin 100) (Fin 100) (Fin 0) (Fin (1 / 16)) (Fin (1 / 4)) =
     Inr \<lparr>S = Fin 100, K = Fin 100, T = Fin 0, r = Fin (1 / 16), sigma = Fin (1 / 4)\<rparr>
   \<and> bs_calculate_option_price binary64 std_normal_cdf
       \<lparr>S = Fin 100, K = Fin 100, T = Fin 0, r = Fin (1 / 16), sigma = Fin (1 / 4)\<rparr>
       (PyStr ''Call Option'') = Inr (PyFloat NaN)
   \<and> init binary64 (Fin 100) (Fin 100) (Fin 365) (Fin 0) (Fin 0) =
     Inr \<lparr>S = Fin 100, K = Fin 100, T = Fin 1, r = Fin 0, sigma = Fin 0\<rparr>
   \<and> bs_calculate_option_price binary64 std_normal_cdf
       \<lparr>S = Fin 100, K = Fin 100, T = Fin 1, r = Fin 0, sigma = Fin 0\<rparr>
       (PyStr ''Call Option'') = Inr (PyFloat NaN)"
  by (simp add: init_def py_truediv_def bs_calculate_option_price_def
      calculate_option_price_def calculate_call_option_price_def d1_def d2_def
      xsub_def inf_of_sign_def binary64_0 binary64_1 binary64_sixteenth
      binary64_thirty_second binary64_three_thirty_seconds)

text \<open>
  C8, amended. With \<open>sigma = 0\<close> or \<open>days_to_maturity = 0\<close> construction succeeds and
  pricing raises no domain error. Each hook raises \<^verbatim>\<open>ZeroDivisionError\<close> when the
  strike is zero, and \<^verbatim>\<open>OverflowError\<close> when the strike is not zero and the square of
  \<open>sigma\<close> is beyond the largest double; in every other case the divisor
  \<open>sigma * sqrt T\<close> is zero or NaN, both \<open>d1\<close> and \<open>d2\<close> are infinite or NaN, and each
  hook returns a float.
\<close>

theorem zero_volatility_or_maturity_no_error:
  assumes "sg = Fin 0 \<or> days = Fin 0"
  shows "\<exists>m. init binary64 s k days rate sg = Inr m
         \<and> (if k = Fin 0
            then calculate_call_option_price binary64 Phi m = Inl ZeroDivisionError
               \<and> calculate_put_option_price binary64 Phi m = Inl ZeroDivisionError
            else if float_pow2 binary64 sg = Inl OverflowError
            then calculate_call_option_price binary64 Phi m = Inl OverflowError
               \<and> calculate_put_option_price binary64 Phi m = Inl OverflowError
            else \<exists>x1 x2 c p.
                   d1 binary64 m = Inr x1 \<and> nonfinite x1
                 \<and> d2 binary64 m = Inr x2 \<and> nonfinite x2
                 \<and> calculate_call_option_price binary64 Phi m = Inr (PyFloat c)
                 \<and> calculate_put_option_price binary64 Phi m = Inr (PyFloat p))"
proof -
  let ?t = "np_div binary64 days (Fin 365)"
  let ?m = "\<lparr>S = s, K = k, T = ?t, r = rate, sigma = sg\<rparr>"
  have i: "init binary64 s k days rate sg = Inr ?m"
    by (simp add: init_def py_truediv_def)
  have "sg = Fin 0 \<or> ?t = Fin 0"
    using assms by (auto simp: binary64_0)
  then have den: "xmul binary64 sg (np_sqrt binary64 ?t) = Fin 0
      \<or> xmul binary64 sg (np_sqrt binary64 ?t) = NaN"
    by (rule denominator_zero)
  show ?thesis
  proof (cases "k = Fin 0")
    case True
    then show ?thesis
      using i
      by (simp add: calculate_call_option_price_def calculate_put_option_price_def d1_def
          py_truediv_def)
  next
    case k: False
    show ?thesis
    proof (cases "float_pow2 binary64 sg")
      case (Inl e)
      then have "e = OverflowError"
        by (cases sg) (simp_all split: if_splits)
      then show ?thesis
        using i k Inl
        by (simp add: calculate_call_option_price_def calculate_put_option_price_def d1_def
            py_truediv_def)
    next
      case (Inr v)
      obtain x1 where x1: "d1 binary64 ?m = Inr x1" "nonfinite x1"
        using k Inr np_div_zero_nonfinite [OF den] by (simp add: d1_def py_truediv_def)
      obtain x2 where x2: "d2 binary64 ?m = Inr x2" "nonfinite x2"
        using k Inr np_div_zero_nonfinite [OF den] by (simp add: d2_def py_truediv_def)
      show ?thesis
        using i k Inr x1 x2
        by (simp add: calculate_call_option_price_def calculate_put_option_price_def)
    qed
  qed
qed

theorem zero_volatility_or_maturity_no_error_witness:
  "(Fin (2 ^ 600) = Fin 0 \<or> Fin 0 = Fin 0)
   \<and> (\<exists>m. init binary64 (Fin 100) (Fin 100) (Fin 0) (Fin (1 / 16)) (Fin (2 ^ 600)) = Inr m
        \<and> calculate_call_option_price binary64 std_normal_cdf m = Inl OverflowError
        \<and> calculate_put_option_price binary64 std_normal_cdf m = Inl OverflowError)
   \<and> (\<exists>m. init binary64 (Fin 100) (Fin 0) (Fin 365) (Fin (1 / 16)) (Fin 0) = Inr m
        \<and> calculate_call_option_price binary64 std_normal_cdf m = Inl ZeroDivisionError
        \<and> calculate_put_option_price binary64 std_normal_cdf m = Inl ZeroDivisionError)
   \<and> (\<exists>m x1 x2 c p.
          init binary64 (Fin 100) (Fin 100) (Fin 365) (Fin (1 / 16)) (Fin 0) = Inr m
        \<and> d1 binary64 m = Inr x1 \<and> nonfinite x1
        \<and> d2 binary64 m = Inr x2 \<and> nonfinite x2
        \<and> calculate_call_option_price binary64 std_normal_cdf m = Inr (PyFloat c)
        \<and> calculate_put_option_price binary64 std_normal_cdf m = Inr (PyFloat p))"
proof -
  have o: "float_pow2 binary64 (Fin (2 ^ 600)) = Inl OverflowError"
    using square_overflow by simp
  have z: "float_pow2 binary64 (Fin 0) = Inr (Fin 0)"
    by (simp add: binary64_0)
  show ?thesis
    using zero_volatility_or_maturity_no_error
        [of "Fin (2 ^ 600)" "Fin 0" "Fin 100" "Fin 100" "Fin (1 / 16)" std_normal_cdf]
      zero_volatility_or_maturity_no_error
        [of "Fin 0" "Fin 365" "Fin 100" "Fin 0" "Fin (1 / 16)" std_normal_cdf]
      zero_volatility_or_maturity_no_error
        [of "Fin 0" "Fin 365" "Fin 100" "Fin 100" "Fin (1 / 16)" std_normal_cdf]
    using o z by simp
qed

section \<open>The two intermediate terms\<close>

lemma binary64_rate: "binary64 (5 / 100) = Fin (3602879701896397 / 2 ^ 56)"
  by (rule binary64_eqI [where e = "- 5"]) (simp_all add: round_half_even_def max_double_def)









section \<open>The error of rounding\<close>

lemma round_half_even_error: "\<bar>of_int (round_half_even y) - y\<bar> \<le> 1 / 2"
proof -
  have "of_int \<lfloor>y\<rfloor> \<le> y" "y < of_int \<lfloor>y\<rfloor> + 1" by linarith+
  then show ?thesis
    by (auto simp: round_half_even_def abs_le_iff)
qed

lemma round_double_error:
  "\<bar>round_double x - x\<bar> \<le> 2 powi ulp_exponent x / 2"
proof -
  define q where "q = (2::real) powi ulp_exponent x"
  have q: "0 < q" by (simp add: q_def)
  have "round_double x - x = (of_int (round_half_even (x / q)) - x / q) * q"
    using q by (simp add: round_double_def q_def [symmetric] left_diff_distrib)
  then have "\<bar>round_double x - x\<bar> = \<bar>of_int (round_half_even (x / q)) - x / q\<bar> * q"
    using q by (simp add: abs_mult)
  also have "\<dots> \<le> 1 / 2 * q"
    using q by (intro mult_right_mono round_half_even_error) simp
  finally show ?thesis by (simp add: q_def)
qed

lemma floor_log_ge:
  assumes "2 powi m \<le> \<bar>x\<bar>"
  shows "m \<le> \<lfloor>log 2 \<bar>x\<bar>\<rfloor>"
proof -
  have "(0::real) < 2 powi m" by simp
  then have pos: "0 < \<bar>x\<bar>" using assms by linarith
  have "(2::real) powr real_of_int m = 2 powi m"
    by (rule powr_real_of_int') simp_all
  then have "2 powr real_of_int m \<le> \<bar>x\<bar>"
    using assms by simp
  then have "real_of_int m \<le> log 2 \<bar>x\<bar>"
    using pos by (simp add: le_log_iff)
  then show ?thesis by (simp add: le_floor_iff)
qed

lemma floor_log_less:
  assumes "\<bar>x\<bar> < 2 powi m" and "x \<noteq> 0"
  shows "\<lfloor>log 2 \<bar>x\<bar>\<rfloor> < m"
proof -
  have pos: "0 < \<bar>x\<bar>" using assms(2) by simp
  have "(2::real) powr real_of_int m = 2 powi m"
    by (rule powr_real_of_int') simp_all
  then have "\<bar>x\<bar> < 2 powr real_of_int m"
    using assms(1) by simp
  then have "log 2 \<bar>x\<bar> < real_of_int m"
    using pos by (simp add: log_less_iff)
  then show ?thesis by (simp add: floor_less_iff)
qed

lemma powi_floor_log_le:
  assumes "x \<noteq> 0"
  shows "2 powi \<lfloor>log 2 \<bar>x\<bar>\<rfloor> \<le> \<bar>x\<bar>"
proof -
  have pos: "0 < \<bar>x\<bar>" using assms by simp
  define e where "e = \<lfloor>log 2 \<bar>x\<bar>\<rfloor>"
  have "2 powr real_of_int e \<le> \<bar>x\<bar>"
    using pos floor_log_eq_powr_iff [of "\<bar>x\<bar>" 2 e] by (simp add: e_def)
  moreover have "(2::real) powr real_of_int e = 2 powi e"
    by (rule powr_real_of_int') simp_all
  ultimately show ?thesis by (simp add: e_def)
qed

lemma ulp_normal:
  assumes "2 powi (- 1022) \<le> \<bar>x\<bar>"
  shows "2 powi ulp_exponent x \<le> \<bar>x\<bar> / 2 ^ 52"
proof -
  have "(0::real) < 2 powi (- 1022)" by (rule zero_less_power_int) simp
  then have nz: "x \<noteq> 0" using assms by auto
  define e where "e = \<lfloor>log 2 \<bar>x\<bar>\<rfloor>"
  have le: "2 powi e \<le> \<bar>x\<bar>"
    unfolding e_def by (rule powi_floor_log_le [OF nz])
  have "- 1022 \<le> e"
    unfolding e_def by (rule floor_log_ge [OF assms])
  then have "ulp_exponent x = e - 52"
    by (simp add: ulp_exponent_def e_def)
  moreover have "(2::real) powi (e - 52) = 2 powi e / 2 powi 52"
    by (rule power_int_diff) simp
  ultimately have "(2::real) powi ulp_exponent x = 2 powi e / 2 ^ 52"
    by simp
  then show ?thesis using le by (simp add: divide_right_mono)
qed

lemma ulp_subnormal:
  assumes "\<bar>x\<bar> < 2 powi (- 1022)" and "x \<noteq> 0"
  shows "ulp_exponent x = - 1074"
proof -
  have "\<lfloor>log 2 \<bar>x\<bar>\<rfloor> < - 1022"
    by (rule floor_log_less [OF assms])
  then show ?thesis by (simp add: ulp_exponent_def)
qed

lemma round_double_0: "round_double 0 = 0"
  by (simp add: round_double_def round_half_even_def)

text \<open>The error of rounding: relative \<open>2 powi (- 53)\<close>, absolute \<open>2 powi (- 1075)\<close>.\<close>

lemma round_double_relative_error:
  "\<bar>round_double x - x\<bar> \<le> \<bar>x\<bar> / 2 ^ 53 + 1 / 2 ^ 1075"
proof (cases "2 powi (- 1022) \<le> \<bar>x\<bar>")
  case True
  have "\<bar>round_double x - x\<bar> \<le> 2 powi ulp_exponent x / 2" by (rule round_double_error)
  also have "\<dots> \<le> (\<bar>x\<bar> / 2 ^ 52) / 2"
    using ulp_normal [OF True] by simp
  also have "\<dots> = \<bar>x\<bar> / 2 ^ 53" by simp
  finally show ?thesis by (simp add: add_increasing2)
next
  case False
  show ?thesis
  proof (cases "x = 0")
    case True
    then show ?thesis by (simp add: round_double_0)
  next
    case nz: False
    have "\<bar>x\<bar> < 2 powi (- 1022)" using False by (simp only: not_le)
    then have "ulp_exponent x = - 1074"
      using nz by (rule ulp_subnormal)
    then have "\<bar>round_double x - x\<bar> \<le> 2 powi (- 1074) / 2"
      using round_double_error [of x] by simp
    also have "\<dots> = 1 / 2 ^ 1075" by (simp add: power_int_minus field_simps)
    finally show ?thesis by (simp add: add_increasing)
  qed
qed

lemma binary64_finite:
  assumes "\<bar>x\<bar> \<le> 2 ^ 1023"
  shows "binary64 x = Fin (round_double x)"
proof -
  have "\<bar>round_double x\<bar> \<le> \<bar>x\<bar> + \<bar>round_double x - x\<bar>" by linarith
  also have "\<dots> \<le> \<bar>x\<bar> + (\<bar>x\<bar> / 2 ^ 53 + 1 / 2 ^ 1075)"
    using round_double_relative_error [of x] by simp
  also have "\<dots> \<le> 2 ^ 1023 + (2 ^ 1023 / 2 ^ 53 + 1 / 2 ^ 1075)"
    using assms by (intro add_mono divide_right_mono) simp_all
  also have "\<dots> \<le> max_double"
    by (simp add: max_double_def)
  finally show ?thesis by (simp add: binary64_def)
qed

section \<open>The primitive of the Gaussian as a power series\<close>

lemma gauss_term_le:
  "norm ((- 1) ^ n * x ^ (2 * n + 1) / (2 ^ n * fact n * real (2 * n + 1)))
      \<le> \<bar>x\<bar> * ((x\<^sup>2 / 2) ^ n /\<^sub>R fact n)" for x :: real
proof -
  have "\<bar>x ^ (2 * n + 1)\<bar> = \<bar>x\<bar> * (x\<^sup>2) ^ n"
    by (simp add: power_mult abs_mult power_abs)
  then have "norm ((- 1) ^ n * x ^ (2 * n + 1) / (2 ^ n * fact n * real (2 * n + 1)))
      = \<bar>x\<bar> * ((x\<^sup>2 / 2) ^ n / fact n) / real (2 * n + 1)"
    by (simp add: abs_mult power_divide)
  also have "\<dots> \<le> \<bar>x\<bar> * ((x\<^sup>2 / 2) ^ n / fact n) / 1"
    by (intro divide_left_mono) (auto intro!: mult_nonneg_nonneg divide_nonneg_nonneg)
  also have "\<dots> = \<bar>x\<bar> * ((x\<^sup>2 / 2) ^ n /\<^sub>R fact n)"
    by (simp add: field_simps)
  finally show ?thesis .
qed

lemma gauss_term_summable:
  "summable (\<lambda>n. (- 1) ^ n * x ^ (2 * n + 1) / (2 ^ n * fact n * real (2 * n + 1)))" for x :: real
proof (rule summable_comparison_test')
  show "summable (\<lambda>n. \<bar>x\<bar> * ((x\<^sup>2 / 2) ^ n /\<^sub>R fact n))"
    using exp_converges [of "x\<^sup>2 / 2"] by (intro summable_mult) (rule sums_summable)
next
  fix n :: nat
  show "norm ((- 1) ^ n * x ^ (2 * n + 1) / (2 ^ n * fact n * real (2 * n + 1)))
      \<le> \<bar>x\<bar> * ((x\<^sup>2 / 2) ^ n /\<^sub>R fact n)"
    by (rule gauss_term_le)
qed

lemma gauss_coeff_sums: "(\<lambda>k. gauss_coeff k * x ^ k) sums gauss_primitive x"
proof -
  let ?g = "\<lambda>n. (- 1) ^ n * x ^ (2 * n + 1) / (2 ^ n * fact n * real (2 * n + 1))"
  have "?g sums gauss_primitive x"
    unfolding gauss_primitive_def by (rule summable_sums) (rule gauss_term_summable)
  then have "(\<lambda>k. if even k then 0 else ?g ((k - 1) div 2)) sums gauss_primitive x"
    by (rule sums_if')
  moreover have "(if even k then 0 else ?g ((k - 1) div 2)) = gauss_coeff k * x ^ k" for k
  proof (cases "even k")
    case True
    then show ?thesis by (simp add: gauss_coeff_def)
  next
    case False
    then have "2 * ((k - 1) div 2) + 1 = k"
      by presburger
    then show ?thesis using False by (simp add: gauss_coeff_def)
  qed
  ultimately show ?thesis by simp
qed

lemma gauss_primitive_powser: "gauss_primitive = (\<lambda>x. \<Sum>k. gauss_coeff k * x ^ k)"
  using gauss_coeff_sums by (auto simp: sums_iff)

lemma diffs_gauss_coeff:
  "diffs gauss_coeff k =
     (if even k then (- 1) ^ (k div 2) / (2 ^ (k div 2) * fact (k div 2)) else 0)"
  by (simp add: diffs_def gauss_coeff_def del: of_nat_Suc)

lemma exp_term_even:
  "(- x\<^sup>2 / 2) ^ m /\<^sub>R fact m = (- 1) ^ m / (2 ^ m * fact m) * x ^ (2 * m)"
  for x :: real
proof -
  have "(- x\<^sup>2 / 2) ^ m = ((- 1) * (x\<^sup>2 / 2)) ^ m" by simp
  also have "\<dots> = (- 1) ^ m * (x\<^sup>2 / 2) ^ m" by (rule power_mult_distrib)
  also have "\<dots> = (- 1) ^ m * x ^ (2 * m) / 2 ^ m" by (simp add: power_divide power_mult)
  finally show ?thesis by (simp add: field_simps)
qed

lemma diffs_gauss_coeff_sums: "(\<lambda>k. diffs gauss_coeff k * x ^ k) sums exp (- x\<^sup>2 / 2)"
proof -
  let ?f = "\<lambda>n. (- x\<^sup>2 / 2) ^ n /\<^sub>R fact n"
  have "(\<lambda>k. if even k then ?f (k div 2) else (\<lambda>n. 0) ((k - 1) div 2)) sums (0 + exp (- x\<^sup>2 / 2))"
    by (rule sums_if) (rule sums_zero, rule exp_converges)
  moreover have "(if even k then ?f (k div 2) else 0) = diffs gauss_coeff k * x ^ k" for k
  proof (cases "even k")
    case True
    then obtain m where "k = 2 * m" by (auto elim: evenE)
    then show ?thesis
      using exp_term_even [where x = x and m = m] by (simp add: diffs_gauss_coeff)
  next
    case False
    then show ?thesis by (simp add: diffs_gauss_coeff)
  qed
  ultimately show ?thesis by simp
qed

lemma DERIV_gauss_primitive:
  "(gauss_primitive has_real_derivative exp (- x\<^sup>2 / 2)) (at x)"
proof -
  have "((\<lambda>x. \<Sum>k. gauss_coeff k * x ^ k) has_field_derivative
      (\<Sum>k. diffs gauss_coeff k * x ^ k)) (at x)"
    by (rule termdiffs_strong_converges_everywhere) (use gauss_coeff_sums in \<open>auto simp: sums_iff\<close>)
  moreover have "(\<Sum>k. diffs gauss_coeff k * x ^ k) = exp (- x\<^sup>2 / 2)"
    using diffs_gauss_coeff_sums by (simp add: sums_iff)
  ultimately show ?thesis by (simp add: gauss_primitive_powser)
qed

lemma gauss_primitive_0: "gauss_primitive 0 = 0"
  by (simp add: gauss_primitive_def)

section \<open>The value of the Gaussian integral\<close>

text \<open>
  The primitive of the Gaussian is squeezed between multiples of the integrals of
  powers of the cosine over \<open>[0, pi / 2]\<close>, whose products are known; so it tends to
  \<open>sqrt (pi / 2)\<close> at infinity.
\<close>

lemma cos_int_step_algebra:
  fixes c s :: real
  assumes "s * s = 1 - c * c"
  shows "(real (Suc m) * c ^ m * (- s) * s + c ^ Suc m * c + real (Suc m) * c ^ m)
           / real (Suc (Suc m)) = c ^ Suc (Suc m)"
proof -
  have "real (Suc m) * c ^ m * (- s) * s + c ^ Suc m * c + real (Suc m) * c ^ m
      = - (real (Suc m) * c ^ m) * (s * s) + c ^ Suc m * c + real (Suc m) * c ^ m"
    by simp
  also have "\<dots> = - (real (Suc m) * c ^ m) * (1 - c * c) + c ^ Suc m * c + real (Suc m) * c ^ m"
    by (simp only: assms)
  also have "\<dots> = real (Suc (Suc m)) * c ^ Suc (Suc m)"
    by (simp add: algebra_simps)
  finally have e: "real (Suc m) * c ^ m * (- s) * s + c ^ Suc m * c + real (Suc m) * c ^ m
      = real (Suc (Suc m)) * c ^ Suc (Suc m)" .
  show ?thesis unfolding e by simp
qed

lemma DERIV_cos_int: "(cos_int m has_real_derivative cos x ^ m) (at x)"
proof (induction m x rule: cos_int.induct)
  case (1 x)
  show ?case by (simp add: cos_int.simps [abs_def])
next
  case (2 x)
  have "(sin has_real_derivative cos x) (at x)" by (rule DERIV_sin)
  moreover have "cos_int (Suc 0) = sin" by (rule ext) simp
  ultimately show ?case by simp
next
  case (3 m x)
  have eq: "cos_int (Suc (Suc m)) =
      (\<lambda>x. (cos x ^ Suc m * sin x + real (Suc m) * cos_int m x) / real (Suc (Suc m)))"
    by (rule ext) simp
  have "((\<lambda>x. (cos x ^ Suc m * sin x + real (Suc m) * cos_int m x) / real (Suc (Suc m)))
      has_real_derivative
        ((real (Suc m) * cos x ^ m * (- sin x) * sin x + cos x ^ Suc m * cos x)
          + real (Suc m) * cos x ^ m) / real (Suc (Suc m))) (at x)"
    by (rule derivative_eq_intros "3.IH" refl | simp)+
  moreover have "((real (Suc m) * cos x ^ m * (- sin x) * sin x + cos x ^ Suc m * cos x)
          + real (Suc m) * cos x ^ m) / real (Suc (Suc m)) = cos x ^ Suc (Suc m)"
  proof (rule cos_int_step_algebra)
    show "sin x * sin x = 1 - cos x * cos x"
      using sin_cos_squared_add [of x] by (simp add: power2_eq_square algebra_simps)
  qed
  ultimately show ?case unfolding eq by simp
qed

lemma cos_int_0: "cos_int m 0 = 0"
  by (induction m "0::real" rule: cos_int.induct) simp_all

lemma wallis_0: "wallis 0 = pi / 2"
  by (simp add: wallis_def)

lemma wallis_1: "wallis (Suc 0) = 1"
  by (simp add: wallis_def)

lemma wallis_Suc_Suc: "wallis (Suc (Suc m)) = real (Suc m) / real (Suc (Suc m)) * wallis m"
  by (simp add: wallis_def)

lemma wallis_pos: "0 < wallis m"
proof (induction m rule: less_induct)
  case (less m)
  show ?case
  proof (cases m)
    case 0
    then show ?thesis by (simp add: wallis_0)
  next
    case (Suc k)
    show ?thesis
    proof (cases k)
      case 0
      with Suc show ?thesis by (simp add: wallis_1)
    next
      case (Suc j)
      have "0 < wallis j" using less.IH [of j] \<open>m = Suc k\<close> \<open>k = Suc j\<close> by simp
      then have "0 < real (Suc j) / real (Suc (Suc j)) * wallis j"
        by (intro mult_pos_pos divide_pos_pos) simp_all
      then show ?thesis using \<open>m = Suc k\<close> \<open>k = Suc j\<close> by (simp only: wallis_Suc_Suc)
    qed
  qed
qed

lemma cos_int_index_mono:
  assumes "0 \<le> x" and "x \<le> pi / 2"
  shows "cos_int (Suc m) x \<le> cos_int m x"
proof -
  let ?f = "\<lambda>t. cos_int m t - cos_int (Suc m) t"
  have "?f 0 \<le> ?f x"
  proof (rule DERIV_nonneg_imp_nondecreasing [OF assms(1)])
    fix t :: real
    assume t: "0 \<le> t" "t \<le> x"
    have c0: "0 \<le> cos t" using t assms by (intro cos_ge_zero) simp_all
    have "(?f has_real_derivative cos t ^ m - cos t ^ Suc m) (at t)"
      by (intro derivative_intros DERIV_cos_int)
    moreover have "0 \<le> cos t ^ m - cos t ^ Suc m"
    proof -
      have "cos t ^ m * cos t \<le> cos t ^ m * 1"
        by (intro mult_left_mono) (use c0 in simp_all)
      then show ?thesis by (simp add: mult.commute)
    qed
    ultimately show "\<exists>y. (?f has_real_derivative y) (at t) \<and> 0 \<le> y" by blast
  qed
  then show ?thesis by (simp add: cos_int_0)
qed

lemma wallis_mono: "wallis (Suc m) \<le> wallis m"
  unfolding wallis_def by (rule cos_int_index_mono) simp_all

lemma frac_cancel: "a \<noteq> 0 \<Longrightarrow> a / b * (p / (2 * a)) = p / (2 * b)" for a b p :: real
  by (simp add: field_simps)

lemma wallis_prod: "wallis m * wallis (Suc m) = pi / (2 * real (Suc m))"
proof (induction m)
  case 0
  show ?case by (simp add: wallis_0 wallis_1)
next
  case (Suc m)
  have "wallis (Suc m) * wallis (Suc (Suc m))
      = real (Suc m) / real (Suc (Suc m)) * (wallis m * wallis (Suc m))"
    by (simp only: wallis_Suc_Suc) (simp add: mult_ac)
  also have "\<dots> = real (Suc m) / real (Suc (Suc m)) * (pi / (2 * real (Suc m)))"
    by (simp only: Suc.IH)
  also have "\<dots> = pi / (2 * real (Suc (Suc m)))"
    by (rule frac_cancel) simp
  finally show ?case .
qed

lemma wallis_sq_lower: "pi / (2 * real (Suc m)) \<le> (wallis m)\<^sup>2"
proof -
  have "wallis m * wallis (Suc m) \<le> wallis m * wallis m"
    by (intro mult_left_mono wallis_mono) (simp add: wallis_pos less_imp_le)
  then show ?thesis by (simp add: wallis_prod power2_eq_square)
qed

lemma wallis_sq_upper: "(wallis (Suc m))\<^sup>2 \<le> pi / (2 * real (Suc m))"
proof -
  have "wallis (Suc m) * wallis (Suc m) \<le> wallis m * wallis (Suc m)"
    by (intro mult_right_mono wallis_mono) (simp add: wallis_pos less_imp_le)
  then show ?thesis by (simp add: wallis_prod power2_eq_square)
qed

lemma DERIV_gauss_primitive_chain:
  assumes "(g has_real_derivative g') (at x)"
  shows "((\<lambda>x. gauss_primitive (g x)) has_real_derivative exp (- (g x)\<^sup>2 / 2) * g') (at x)"
  by (rule DERIV_chain2 [OF DERIV_gauss_primitive assms])

lemma pow_le_exp:
  fixes u :: real
  assumes "u \<le> 1"
  shows "(1 - u) ^ n \<le> exp (- (real n * u))"
proof -
  have "1 + (- u) \<le> exp (- u)" by (rule exp_ge_add_one_self)
  then have "(1 - u) ^ n \<le> exp (- u) ^ n"
    using assms by (intro power_mono) simp_all
  also have "\<dots> = exp (real n * (- u))" by (rule exp_of_nat_mult [symmetric])
  finally show ?thesis by simp
qed

lemma exp_le_pow:
  fixes u :: real
  assumes "0 \<le> u"
  shows "exp (- (real n * u)) \<le> (1 / (1 + u)) ^ n"
proof -
  have "1 + u \<le> exp u" by (rule exp_ge_add_one_self)
  then have "1 / exp u \<le> 1 / (1 + u)"
    using assms by (intro divide_left_mono) (simp_all add: add_pos_nonneg)
  then have "exp (- u) \<le> 1 / (1 + u)" by (simp add: exp_minus inverse_eq_divide)
  then have "exp (- u) ^ n \<le> (1 / (1 + u)) ^ n"
    by (intro power_mono) simp_all
  moreover have "exp (- u) ^ n = exp (real n * (- u))" by (rule exp_of_nat_mult [symmetric])
  ultimately show ?thesis by simp
qed

lemma gauss_lower: "sqrt (2 * real n) * wallis (2 * n + 1) \<le> gauss_primitive (sqrt (2 * real n))"
proof -
  define a where "a = sqrt (2 * real n)"
  have a0: "0 \<le> a" and a2: "a\<^sup>2 = 2 * real n" by (simp_all add: a_def)
  let ?h = "\<lambda>t. gauss_primitive (a * sin t) - a * cos_int (2 * n + 1) t"
  have "?h 0 \<le> ?h (pi / 2)"
  proof (rule DERIV_nonneg_imp_nondecreasing [of 0 "pi / 2"])
    show "(0::real) \<le> pi / 2" by simp
  next
    fix t :: real
    assume t: "0 \<le> t" "t \<le> pi / 2"
    have c0: "0 \<le> cos t" using t by (intro cos_ge_zero) simp_all
    have "(?h has_real_derivative
        exp (- (a * sin t)\<^sup>2 / 2) * (a * cos t) - a * cos t ^ (2 * n + 1)) (at t)"
      by (rule derivative_eq_intros DERIV_gauss_primitive_chain DERIV_cos_int refl | simp)+
    moreover have "0 \<le> exp (- (a * sin t)\<^sup>2 / 2) * (a * cos t) - a * cos t ^ (2 * n + 1)"
    proof -
      have "(a * sin t)\<^sup>2 / 2 = real n * (sin t)\<^sup>2"
        by (simp add: power_mult_distrib a2)
      then have e: "exp (- (a * sin t)\<^sup>2 / 2) = exp (- (real n * (sin t)\<^sup>2))" by simp
      have "cos t ^ (2 * n) = ((cos t)\<^sup>2) ^ n" by (simp add: power_mult)
      also have "\<dots> = (1 - (sin t)\<^sup>2) ^ n"
        by (simp only: cos_squared_eq)
      also have "\<dots> \<le> exp (- (real n * (sin t)\<^sup>2))"
        by (rule pow_le_exp) (simp add: abs_square_le_1)
      finally have "cos t ^ (2 * n) \<le> exp (- (a * sin t)\<^sup>2 / 2)" by (simp only: e)
      then have "(a * cos t) * cos t ^ (2 * n) \<le> (a * cos t) * exp (- (a * sin t)\<^sup>2 / 2)"
        by (intro mult_left_mono mult_nonneg_nonneg a0 c0)
      then show ?thesis by (simp add: mult_ac)
    qed
    ultimately show "\<exists>y. (?h has_real_derivative y) (at t) \<and> 0 \<le> y" by blast
  qed
  then show ?thesis
    by (simp add: cos_int_0 gauss_primitive_0 wallis_def a_def)
qed

lemma cos_int_mono:
  assumes "x \<le> y"
  shows "cos_int (2 * n) x \<le> cos_int (2 * n) y"
proof (rule DERIV_nonneg_imp_nondecreasing [OF assms])
  fix t :: real
  have "0 \<le> ((cos t) ^ n)\<^sup>2" by simp
  then have "0 \<le> cos t ^ (2 * n)" by (simp add: power_mult [symmetric] mult.commute)
  then show "\<exists>y. (cos_int (2 * n) has_real_derivative y) (at t) \<and> 0 \<le> y"
    using DERIV_cos_int by blast
qed

lemma gauss_upper:
  assumes "0 \<le> x"
  shows "gauss_primitive x \<le> sqrt (2 * real (Suc n)) * wallis (2 * n)"
proof -
  define b where "b = sqrt (2 * real (Suc n))"
  have b0: "0 < b" and b2: "b\<^sup>2 = 2 * real (Suc n)" by (simp_all add: b_def)
  define t0 where "t0 = arctan (x / b)"
  have t0: "0 \<le> t0" "t0 < pi / 2"
    unfolding t0_def using assms b0 arctan_ubound [of "x / b"] by simp_all
  let ?k = "\<lambda>t. b * cos_int (2 * n) t - gauss_primitive (b * tan t)"
  have "?k 0 \<le> ?k t0"
  proof (rule DERIV_nonneg_imp_nondecreasing [of 0 t0])
    show "0 \<le> t0" by (rule t0)
  next
    fix t :: real
    assume t: "0 \<le> t" "t \<le> t0"
    have c0: "0 < cos t" using t t0 by (intro cos_gt_zero_pi) simp_all
    then have cn: "cos t \<noteq> 0" by simp
    have "(?k has_real_derivative
        b * cos t ^ (2 * n) - exp (- (b * tan t)\<^sup>2 / 2) * (b * inverse ((cos t)\<^sup>2))) (at t)"
      by (rule derivative_eq_intros DERIV_gauss_primitive_chain DERIV_cos_int DERIV_tan cn refl
          | simp)+
    moreover have "0 \<le> b * cos t ^ (2 * n)
        - exp (- (b * tan t)\<^sup>2 / 2) * (b * inverse ((cos t)\<^sup>2))"
    proof -
      define u where "u = (tan t)\<^sup>2"
      have u0: "0 \<le> u" by (simp add: u_def)
      have e: "1 + u = (inverse (cos t))\<^sup>2" unfolding u_def by (rule tan_sec [OF cn])
      have iu: "1 / (1 + u) = (cos t)\<^sup>2"
        unfolding e by (simp add: power_divide inverse_eq_divide)
      have "(b * tan t)\<^sup>2 / 2 = real (Suc n) * u"
        by (simp add: power_mult_distrib b2 u_def)
      then have "exp (- (b * tan t)\<^sup>2 / 2) = exp (- (real (Suc n) * u))" by simp
      also have "\<dots> \<le> (1 / (1 + u)) ^ Suc n" by (rule exp_le_pow [OF u0])
      also have "\<dots> = (cos t)\<^sup>2 * cos t ^ (2 * n)"
        by (simp add: iu power_mult)
      finally have "exp (- (b * tan t)\<^sup>2 / 2) \<le> (cos t)\<^sup>2 * cos t ^ (2 * n)" .
      then have "exp (- (b * tan t)\<^sup>2 / 2) * (b * inverse ((cos t)\<^sup>2))
          \<le> ((cos t)\<^sup>2 * cos t ^ (2 * n)) * (b * inverse ((cos t)\<^sup>2))"
        using b0 by (intro mult_right_mono) simp_all
      also have "\<dots> = b * cos t ^ (2 * n)" using cn by simp
      finally show ?thesis by simp
    qed
    ultimately show "\<exists>y. (?k has_real_derivative y) (at t) \<and> 0 \<le> y" by blast
  qed
  moreover have "b * tan t0 = x" using b0 by (simp add: t0_def tan_arctan)
  ultimately have "gauss_primitive x \<le> b * cos_int (2 * n) t0"
    by (simp add: cos_int_0 gauss_primitive_0)
  also have "\<dots> \<le> b * cos_int (2 * n) (pi / 2)"
    using b0 t0 by (intro mult_left_mono cos_int_mono) simp_all
  finally show ?thesis by (simp add: wallis_def b_def)
qed

lemma gauss_primitive_mono:
  assumes "x \<le> y"
  shows "gauss_primitive x \<le> gauss_primitive y"
proof (rule DERIV_nonneg_imp_nondecreasing [OF assms])
  fix t :: real
  have "0 \<le> exp (- t\<^sup>2 / 2)" by simp
  then show "\<exists>y. (gauss_primitive has_real_derivative y) (at t) \<and> 0 \<le> y"
    using DERIV_gauss_primitive by blast
qed

lemma gauss_primitive_nonneg: "0 \<le> x \<Longrightarrow> 0 \<le> gauss_primitive x"
  using gauss_primitive_mono [of 0 x] by (simp add: gauss_primitive_0)

lemma gauss_primitive_sq_upper:
  assumes "0 \<le> x"
  shows "(gauss_primitive x)\<^sup>2 \<le> pi / 2 * (real (Suc (Suc j)) / real (Suc j))"
proof -
  let ?n = "Suc j"
  have w: "(wallis (2 * ?n))\<^sup>2 \<le> pi / (2 * real (2 * ?n))"
    using wallis_sq_upper [of "Suc (2 * j)"] by simp
  have "gauss_primitive x \<le> sqrt (2 * real (Suc ?n)) * wallis (2 * ?n)"
    by (rule gauss_upper [OF assms])
  then have "(gauss_primitive x)\<^sup>2 \<le> (sqrt (2 * real (Suc ?n)) * wallis (2 * ?n))\<^sup>2"
    using gauss_primitive_nonneg [OF assms] by (intro power_mono) simp_all
  also have "\<dots> = 2 * real (Suc ?n) * (wallis (2 * ?n))\<^sup>2"
    by (simp add: power_mult_distrib)
  also have "\<dots> \<le> 2 * real (Suc ?n) * (pi / (2 * real (2 * ?n)))"
    by (intro mult_left_mono w) simp
  also have "\<dots> = pi / 2 * (real (Suc (Suc j)) / real (Suc j))"
    by (simp add: field_simps)
  finally show ?thesis .
qed

lemma gauss_primitive_sq_lower:
  "pi / 2 * (real n / real (Suc n)) \<le> (gauss_primitive (sqrt (2 * real n)))\<^sup>2"
proof -
  have w: "pi / (2 * real (Suc (2 * n + 1))) \<le> (wallis (2 * n + 1))\<^sup>2"
    by (rule wallis_sq_lower)
  have "pi / 2 * (real n / real (Suc n)) = 2 * real n * (pi / (2 * real (Suc (2 * n + 1))))"
    by (simp add: field_simps)
  also have "\<dots> \<le> 2 * real n * (wallis (2 * n + 1))\<^sup>2"
    by (intro mult_left_mono w) simp
  also have "\<dots> = (sqrt (2 * real n) * wallis (2 * n + 1))\<^sup>2"
    by (simp add: power_mult_distrib)
  also have "\<dots> \<le> (gauss_primitive (sqrt (2 * real n)))\<^sup>2"
    by (intro power_mono gauss_lower mult_nonneg_nonneg) (simp_all add: wallis_pos less_imp_le)
  finally show ?thesis .
qed

lemma gauss_primitive_le:
  assumes "0 \<le> x"
  shows "gauss_primitive x \<le> sqrt (pi / 2)"
proof -
  have "(\<lambda>j. pi / 2 * (real (Suc (Suc j)) / real (Suc j))) \<longlonglongrightarrow> pi / 2 * 1"
    by (intro tendsto_mult tendsto_const LIMSEQ_Suc [OF LIMSEQ_Suc_n_over_n])
  then have "(gauss_primitive x)\<^sup>2 \<le> pi / 2 * 1"
    by (rule LIMSEQ_le_const) (use gauss_primitive_sq_upper [OF assms] in blast)
  then show ?thesis by (intro real_le_rsqrt) simp
qed

lemma gauss_primitive_at_top: "(gauss_primitive \<longlongrightarrow> sqrt (pi / 2)) at_top"
proof (rule order_tendstoI)
  fix a :: real
  assume "sqrt (pi / 2) < a"
  then have "\<forall>x\<ge>0. gauss_primitive x < a"
    using gauss_primitive_le by (meson le_less_trans)
  then show "eventually (\<lambda>x. gauss_primitive x < a) at_top"
    unfolding eventually_at_top_linorder by blast
next
  fix a :: real
  assume a: "a < sqrt (pi / 2)"
  have "(\<lambda>n. sqrt (pi / 2 * (real n / real (Suc n)))) \<longlonglongrightarrow> sqrt (pi / 2 * 1)"
    by (intro tendsto_real_sqrt tendsto_mult tendsto_const LIMSEQ_n_over_Suc_n)
  then have "eventually (\<lambda>n. a < sqrt (pi / 2 * (real n / real (Suc n)))) sequentially"
    using a by (intro order_tendstoD) simp_all
  then obtain N where N: "a < sqrt (pi / 2 * (real N / real (Suc N)))"
    unfolding eventually_sequentially by blast
  have "sqrt (pi / 2 * (real N / real (Suc N))) \<le> gauss_primitive (sqrt (2 * real N))"
    by (intro real_le_lsqrt gauss_primitive_nonneg gauss_primitive_sq_lower) simp
  with N have aN: "a < gauss_primitive (sqrt (2 * real N))" by simp
  have "\<forall>x\<ge>sqrt (2 * real N). a < gauss_primitive x"
    using aN gauss_primitive_mono by (meson less_le_trans)
  then show "eventually (\<lambda>x. a < gauss_primitive x) at_top"
    unfolding eventually_at_top_linorder by blast
qed

lemma gauss_primitive_minus: "gauss_primitive (- x) = - gauss_primitive x"
proof -
  let ?f = "\<lambda>t. gauss_primitive t + gauss_primitive (- t)"
  have "\<forall>t. (?f has_real_derivative 0) (at t)"
  proof
    fix t :: real
    have "(?f has_real_derivative exp (- t\<^sup>2 / 2) + exp (- (- t)\<^sup>2 / 2) * (- 1)) (at t)"
      by (rule derivative_eq_intros DERIV_gauss_primitive DERIV_gauss_primitive_chain refl | simp)+
    then show "(?f has_real_derivative 0) (at t)" by simp
  qed
  then have "?f x = ?f 0" by (rule DERIV_isconst_all)
  then show ?thesis by (simp add: gauss_primitive_0)
qed

lemma gauss_primitive_at_bot: "(gauss_primitive \<longlongrightarrow> - sqrt (pi / 2)) at_bot"
proof -
  have "((\<lambda>x. - gauss_primitive x) \<longlongrightarrow> - sqrt (pi / 2)) at_top"
    by (intro tendsto_minus gauss_primitive_at_top)
  then have "((\<lambda>x. gauss_primitive (- x)) \<longlongrightarrow> - sqrt (pi / 2)) at_top"
    by (simp add: gauss_primitive_minus)
  then show ?thesis by (simp add: filterlim_at_bot_mirror)
qed

section \<open>Properties of the standard normal distribution function\<close>

lemma standard_normal_density_pos: "0 < standard_normal_density x"
  by (simp add: standard_normal_density_def)

lemma DERIV_std_normal_cdf:
  "(std_normal_cdf has_real_derivative standard_normal_density x) (at x)"
proof -
  have "((\<lambda>x. gauss_primitive x / sqrt (2 * pi)) has_real_derivative
      exp (- x\<^sup>2 / 2) / sqrt (2 * pi)) (at x)"
    by (rule DERIV_cdivide [OF DERIV_gauss_primitive])
  then have "((\<lambda>x. 1 / 2 + gauss_primitive x / sqrt (2 * pi)) has_real_derivative
      0 + exp (- x\<^sup>2 / 2) / sqrt (2 * pi)) (at x)"
    by (rule DERIV_add [OF DERIV_const])
  then show ?thesis
    by (simp add: std_normal_cdf_def [abs_def] standard_normal_density_def)
qed

lemma sqrt_half_pi_ratio: "sqrt (pi / 2) / sqrt (2 * pi) = 1 / 2"
proof -
  have "sqrt (pi / 2) / sqrt (2 * pi) = sqrt ((pi / 2) / (2 * pi))"
    by (rule real_sqrt_divide [symmetric])
  also have "(pi / 2) / (2 * pi) = (1 / 2)\<^sup>2"
    by (simp add: power2_eq_square)
  also have "sqrt ((1 / 2)\<^sup>2) = 1 / 2" by (simp del: power_divide)
  finally show ?thesis .
qed

lemma std_normal_cdf_at_top: "(std_normal_cdf \<longlongrightarrow> 1) at_top"
proof -
  have "((\<lambda>x. 1 / 2 + gauss_primitive x / sqrt (2 * pi))
      \<longlongrightarrow> 1 / 2 + sqrt (pi / 2) / sqrt (2 * pi)) at_top"
    by (intro tendsto_add tendsto_divide tendsto_const gauss_primitive_at_top) simp
  then show ?thesis by (simp add: sqrt_half_pi_ratio std_normal_cdf_def [abs_def])
qed

lemma std_normal_cdf_at_bot: "(std_normal_cdf \<longlongrightarrow> 0) at_bot"
proof -
  have "((\<lambda>x. 1 / 2 + gauss_primitive x / sqrt (2 * pi))
      \<longlongrightarrow> 1 / 2 + (- sqrt (pi / 2)) / sqrt (2 * pi)) at_bot"
    by (intro tendsto_add tendsto_divide tendsto_const gauss_primitive_at_bot) simp
  moreover have "1 / 2 + (- sqrt (pi / 2)) / sqrt (2 * pi) = 0"
    using sqrt_half_pi_ratio by simp
  ultimately show ?thesis by (simp add: std_normal_cdf_def [abs_def])
qed

lemma std_normal_cdf_is_standard: "is_standard_normal_cdf std_normal_cdf"
  by (simp add: is_standard_normal_cdf_def DERIV_std_normal_cdf std_normal_cdf_at_bot)

lemma standard_normal_cdf_unique:
  assumes "is_standard_normal_cdf Phi"
  shows "Phi = std_normal_cdf"
proof
  fix x :: real
  let ?f = "\<lambda>t. Phi t - std_normal_cdf t"
  have d: "\<forall>t. (?f has_real_derivative 0) (at t)"
  proof
    fix t :: real
    have "(Phi has_real_derivative standard_normal_density t) (at t)"
      using assms by (simp add: is_standard_normal_cdf_def)
    then have "(?f has_real_derivative standard_normal_density t - standard_normal_density t) (at t)"
      by (rule DERIV_diff [OF _ DERIV_std_normal_cdf])
    then show "(?f has_real_derivative 0) (at t)" by simp
  qed
  define c where "c = Phi x - std_normal_cdf x"
  have c: "?f t = c" for t unfolding c_def by (rule DERIV_isconst_all [OF d])
  have "(Phi \<longlongrightarrow> 0) at_bot"
    using assms by (simp add: is_standard_normal_cdf_def)
  then have "(?f \<longlongrightarrow> 0 - 0) at_bot"
    by (rule tendsto_diff [OF _ std_normal_cdf_at_bot])
  then have "((\<lambda>t::real. c) \<longlongrightarrow> 0) at_bot" by (simp add: c)
  then have "c = 0" by (simp add: tendsto_const_iff)
  then show "Phi x = std_normal_cdf x" by (simp add: c_def)
qed

lemma std_normal_cdf_pos: "0 < std_normal_cdf x"
proof (rule DERIV_pos_imp_increasing_at_bot [OF _ std_normal_cdf_at_bot])
  fix t :: real
  show "\<exists>y. (std_normal_cdf has_real_derivative y) (at t) \<and> 0 < y"
    using DERIV_std_normal_cdf [of t] standard_normal_density_pos [of t] by blast
qed

lemma std_normal_cdf_mono:
  assumes "x \<le> y"
  shows "std_normal_cdf x \<le> std_normal_cdf y"
proof (rule DERIV_nonneg_imp_nondecreasing [OF assms])
  fix t :: real
  have "0 \<le> standard_normal_density t"
    using standard_normal_density_pos [of t] by simp
  then show "\<exists>y. (std_normal_cdf has_real_derivative y) (at t) \<and> 0 \<le> y"
    using DERIV_std_normal_cdf [of t] by blast
qed

lemma std_normal_cdf_minus: "std_normal_cdf (- x) = 1 - std_normal_cdf x"
  by (simp add: std_normal_cdf_def gauss_primitive_minus)

lemma std_normal_cdf_0: "std_normal_cdf 0 = 1 / 2"
  by (simp add: std_normal_cdf_def gauss_primitive_0)

lemma std_normal_cdf_less_1: "std_normal_cdf x < 1"
  using std_normal_cdf_pos [of "- x"] by (simp add: std_normal_cdf_minus)

lemma standard_normal_density_shift:
  "standard_normal_density (x - v) = exp (x * v - v\<^sup>2 / 2) * standard_normal_density x"
proof -
  have "- (x - v)\<^sup>2 / 2 = (x * v - v\<^sup>2 / 2) + (- x\<^sup>2 / 2)"
    unfolding power2_diff by (simp add: field_simps)
  then have "exp (- (x - v)\<^sup>2 / 2) = exp (x * v - v\<^sup>2 / 2) * exp (- x\<^sup>2 / 2)"
    by (simp only: exp_add)
  then show ?thesis by (simp add: standard_normal_density_def)
qed

lemma bs_kernel_DERIV:
  "((\<lambda>x. exp (x * v - v\<^sup>2 / 2) * std_normal_cdf x - std_normal_cdf (x - v))
      has_real_derivative v * exp (x * v - v\<^sup>2 / 2) * std_normal_cdf x) (at x)"
proof -
  have 1: "((\<lambda>x. exp (x * v - v\<^sup>2 / 2)) has_real_derivative exp (x * v - v\<^sup>2 / 2) * v) (at x)"
    by (rule derivative_eq_intros refl | simp)+
  have 2: "((\<lambda>x. std_normal_cdf (x - v)) has_real_derivative
      standard_normal_density (x - v) * 1) (at x)"
    by (rule DERIV_chain2 [OF DERIV_std_normal_cdf]) (rule derivative_eq_intros refl | simp)+
  have 3: "((\<lambda>x. exp (x * v - v\<^sup>2 / 2) * std_normal_cdf x - std_normal_cdf (x - v))
      has_real_derivative
        (exp (x * v - v\<^sup>2 / 2) * v * std_normal_cdf x
          + standard_normal_density x * exp (x * v - v\<^sup>2 / 2))
        - standard_normal_density (x - v) * 1) (at x)"
    by (rule DERIV_diff [OF DERIV_mult [OF 1 DERIV_std_normal_cdf] 2])
  have 4: "(exp (x * v - v\<^sup>2 / 2) * v * std_normal_cdf x
          + standard_normal_density x * exp (x * v - v\<^sup>2 / 2))
        - standard_normal_density (x - v) * 1 = v * exp (x * v - v\<^sup>2 / 2) * std_normal_cdf x"
    by (simp add: standard_normal_density_shift)
  show ?thesis by (rule 3 [unfolded 4])
qed

lemma bs_kernel_at_bot:
  assumes "0 < v"
  shows "((\<lambda>x. exp (x * v - v\<^sup>2 / 2) * std_normal_cdf x - std_normal_cdf (x - v))
           \<longlongrightarrow> 0) at_bot"
proof (rule tendsto_sandwich)
  show "((\<lambda>x. - std_normal_cdf x) \<longlongrightarrow> 0) at_bot"
    using tendsto_minus [OF std_normal_cdf_at_bot] by simp
  show "(std_normal_cdf \<longlongrightarrow> 0) at_bot" by (rule std_normal_cdf_at_bot)
  have b: "- std_normal_cdf x \<le> exp (x * v - v\<^sup>2 / 2) * std_normal_cdf x - std_normal_cdf (x - v)
      \<and> exp (x * v - v\<^sup>2 / 2) * std_normal_cdf x - std_normal_cdf (x - v) \<le> std_normal_cdf x"
    if "x \<le> 0" for x
  proof -
    have "x * v \<le> 0" using that assms by (simp add: mult_nonpos_nonneg)
    moreover have "0 \<le> v\<^sup>2 / 2" by simp
    ultimately have "x * v - v\<^sup>2 / 2 \<le> 0" by linarith
    then have e1: "exp (x * v - v\<^sup>2 / 2) \<le> 1" by simp
    define A where "A = exp (x * v - v\<^sup>2 / 2) * std_normal_cdf x"
    have "A \<le> 1 * std_normal_cdf x"
      unfolding A_def by (intro mult_right_mono e1) (simp add: std_normal_cdf_pos less_imp_le)
    then have a1: "A \<le> std_normal_cdf x" by simp
    have a2: "0 \<le> A"
      unfolding A_def by (simp add: std_normal_cdf_pos less_imp_le)
    have a3: "std_normal_cdf (x - v) \<le> std_normal_cdf x"
      using assms by (intro std_normal_cdf_mono) simp
    have a4: "0 < std_normal_cdf (x - v)" by (rule std_normal_cdf_pos)
    have "- std_normal_cdf x \<le> A - std_normal_cdf (x - v)
        \<and> A - std_normal_cdf (x - v) \<le> std_normal_cdf x"
      using a1 a2 a3 a4 by linarith
    then show ?thesis by (simp only: A_def)
  qed
  show "eventually (\<lambda>x. - std_normal_cdf x
      \<le> exp (x * v - v\<^sup>2 / 2) * std_normal_cdf x - std_normal_cdf (x - v)) at_bot"
    unfolding eventually_at_bot_linorder using b by blast
  show "eventually (\<lambda>x. exp (x * v - v\<^sup>2 / 2) * std_normal_cdf x - std_normal_cdf (x - v)
      \<le> std_normal_cdf x) at_bot"
    unfolding eventually_at_bot_linorder using b by blast
qed

lemma bs_kernel_pos:
  assumes "0 < v"
  shows "std_normal_cdf (d - v) < exp (d * v - v\<^sup>2 / 2) * std_normal_cdf d"
proof -
  have "0 < exp (d * v - v\<^sup>2 / 2) * std_normal_cdf d - std_normal_cdf (d - v)"
  proof (rule DERIV_pos_imp_increasing_at_bot [OF _ bs_kernel_at_bot [OF assms]])
    fix x :: real
    have "0 < v * exp (x * v - v\<^sup>2 / 2) * std_normal_cdf x"
      using assms by (simp add: std_normal_cdf_pos)
    then show "\<exists>y. ((\<lambda>x. exp (x * v - v\<^sup>2 / 2) * std_normal_cdf x - std_normal_cdf (x - v))
        has_real_derivative y) (at x) \<and> 0 < y"
      using bs_kernel_DERIV [of v x] by blast
  qed
  then show ?thesis by simp
qed

section \<open>Put-call parity and the no-arbitrage bounds\<close>

lemma bs_entry_call:
  "bs_calculate_option_price rnd Phi m (PyStr ''Call Option'') =
     calculate_call_option_price rnd Phi m"
  by (simp add: bs_calculate_option_price_def calculate_option_price_def)

lemma bs_entry_put:
  "bs_calculate_option_price rnd Phi m (PyStr ''Put Option'') =
     calculate_put_option_price rnd Phi m"
  by (simp add: bs_calculate_option_price_def calculate_option_price_def)

lemma xmul_NaN_right: "xmul rnd a NaN = NaN"
  by (cases a) simp_all

lemma xadd_NaN_right: "xadd rnd a NaN = NaN"
  by (cases a) simp_all

lemma bs_terms:
  fixes s k t sg rate v x1 x2 :: real
  assumes "0 < s" and "0 < k" and "0 < t" and "0 < sg"
    and v: "v = sg * sqrt t"
    and x1: "x1 = (ln (s / k) + (rate + 0.5 * sg\<^sup>2) * t) / (sg * sqrt t)"
    and x2: "x2 = (ln (s / k) + (rate - 0.5 * sg\<^sup>2) * t) / (sg * sqrt t)"
  shows "0 < v" and "x2 = x1 - v" and "s = k * exp (- rate * t) * exp (x1 * v - v\<^sup>2 / 2)"
proof -
  show v0: "0 < v" using assms by simp
  have v2: "v\<^sup>2 = sg\<^sup>2 * t"
    using assms by (simp add: power_mult_distrib)
  have x1v: "x1 * v = ln (s / k) + (rate + 0.5 * sg\<^sup>2) * t"
    using assms(3,4) unfolding x1 v by simp
  have x2v: "x2 * v = ln (s / k) + (rate - 0.5 * sg\<^sup>2) * t"
    using assms(3,4) unfolding x2 v by simp
  have "v * v = sg\<^sup>2 * t"
    using v2 by (simp add: power2_eq_square)
  then have "x2 * v = x1 * v - v * v"
    unfolding x1v x2v by (simp add: algebra_simps)
  then have "x2 * v = (x1 - v) * v"
    by (simp add: algebra_simps)
  then show "x2 = x1 - v" using v0 by simp
  have "x1 * v - v\<^sup>2 / 2 = ln (s / k) + rate * t"
    unfolding x1v v2 by (simp add: algebra_simps)
  then have "exp (x1 * v - v\<^sup>2 / 2) = exp (ln (s / k)) * exp (rate * t)"
    by (simp only: exp_add)
  moreover have "exp (ln (s / k)) = s / k"
    using assms(1,2) by simp
  ultimately have "exp (x1 * v - v\<^sup>2 / 2) = s / k * exp (rate * t)"
    by (simp only:)
  then have "k * exp (- rate * t) * exp (x1 * v - v\<^sup>2 / 2)
      = s * (exp (- rate * t) * exp (rate * t))"
    using assms(2) by simp
  also have "\<dots> = s" by (simp add: exp_add [symmetric])
  finally show "s = k * exp (- rate * t) * exp (x1 * v - v\<^sup>2 / 2)" by simp
qed

lemma bs_call_pos:
  fixes s k t sg rate :: real
  assumes "0 < s" and "0 < k" and "0 < t" and "0 < sg"
  shows "0 < s * std_normal_cdf ((ln (s / k) + (rate + 0.5 * sg\<^sup>2) * t) / (sg * sqrt t))
            - k * exp (- rate * t)
                * std_normal_cdf ((ln (s / k) + (rate - 0.5 * sg\<^sup>2) * t) / (sg * sqrt t))"
proof -
  define v where "v = sg * sqrt t"
  define x1 where "x1 = (ln (s / k) + (rate + 0.5 * sg\<^sup>2) * t) / (sg * sqrt t)"
  define x2 where "x2 = (ln (s / k) + (rate - 0.5 * sg\<^sup>2) * t) / (sg * sqrt t)"
  note t = bs_terms [OF assms v_def x1_def x2_def]
  have "std_normal_cdf (x1 - v) < exp (x1 * v - v\<^sup>2 / 2) * std_normal_cdf x1"
    by (rule bs_kernel_pos [OF t(1)])
  then have "k * exp (- rate * t) * std_normal_cdf (x1 - v)
      < k * exp (- rate * t) * (exp (x1 * v - v\<^sup>2 / 2) * std_normal_cdf x1)"
    using assms by (intro mult_strict_left_mono) simp_all
  also have "\<dots> = (k * exp (- rate * t) * exp (x1 * v - v\<^sup>2 / 2)) * std_normal_cdf x1"
    by (simp only: mult.assoc)
  also have "\<dots> = s * std_normal_cdf x1" by (simp only: t(3) [symmetric])
  finally have "0 < s * std_normal_cdf x1 - k * exp (- rate * t) * std_normal_cdf x2"
    by (simp add: t(2))
  then show ?thesis by (simp only: x1_def x2_def)
qed

lemma bs_put_pos:
  fixes s k t sg rate :: real
  assumes "0 < s" and "0 < k" and "0 < t" and "0 < sg"
  shows "0 < k * exp (- rate * t)
              * std_normal_cdf (- ((ln (s / k) + (rate - 0.5 * sg\<^sup>2) * t) / (sg * sqrt t)))
            - s * std_normal_cdf (- ((ln (s / k) + (rate + 0.5 * sg\<^sup>2) * t) / (sg * sqrt t)))"
proof -
  define v where "v = sg * sqrt t"
  define x1 where "x1 = (ln (s / k) + (rate + 0.5 * sg\<^sup>2) * t) / (sg * sqrt t)"
  define x2 where "x2 = (ln (s / k) + (rate - 0.5 * sg\<^sup>2) * t) / (sg * sqrt t)"
  note t = bs_terms [OF assms v_def x1_def x2_def]
  have e: "(- x2) * v - v\<^sup>2 / 2 = - (x1 * v - v\<^sup>2 / 2)"
    unfolding t(2) by (simp add: algebra_simps power2_eq_square)
  have "s * exp ((- x2) * v - v\<^sup>2 / 2)
      = k * exp (- rate * t) * (exp (x1 * v - v\<^sup>2 / 2) * exp (- (x1 * v - v\<^sup>2 / 2)))"
    unfolding e using t(3) by (simp only: mult.assoc)
  also have "\<dots> = k * exp (- rate * t)" by (simp add: exp_add [symmetric])
  finally have k: "s * exp ((- x2) * v - v\<^sup>2 / 2) = k * exp (- rate * t)" .
  have "std_normal_cdf (- x2 - v) < exp ((- x2) * v - v\<^sup>2 / 2) * std_normal_cdf (- x2)"
    by (rule bs_kernel_pos [OF t(1)])
  then have "s * std_normal_cdf (- x2 - v)
      < s * (exp ((- x2) * v - v\<^sup>2 / 2) * std_normal_cdf (- x2))"
    using assms by (intro mult_strict_left_mono) simp_all
  also have "\<dots> = (s * exp ((- x2) * v - v\<^sup>2 / 2)) * std_normal_cdf (- x2)"
    by (simp only: mult.assoc)
  also have "\<dots> = k * exp (- rate * t) * std_normal_cdf (- x2)" by (simp only: k)
  finally have "s * std_normal_cdf (- x2 - v) < k * exp (- rate * t) * std_normal_cdf (- x2)" .
  moreover have "- x2 - v = - x1" by (simp add: t(2))
  ultimately have "0 < k * exp (- rate * t) * std_normal_cdf (- x2) - s * std_normal_cdf (- x1)"
    by simp
  then show ?thesis by (simp only: x1_def x2_def)
qed

lemma bs_parity:
  fixes s x1 x2 K' :: real
  shows "(s * std_normal_cdf x1 - K' * std_normal_cdf x2)
       - (K' * std_normal_cdf (- x2) - s * std_normal_cdf (- x1)) = s - K'"
  by (simp add: std_normal_cdf_minus algebra_simps)

text \<open>
  The two prices in exact arithmetic, for the distribution function of the standard
  normal distribution: both are positive and their difference is \<open>S - K * exp (- r * T)\<close>.
\<close>

lemma exact_prices:
  fixes s k t sg rate :: real
  assumes "is_standard_normal_cdf Phi" and "0 < s" and "0 < k" and "0 < t" and "0 < sg"
  shows "\<exists>c p.
           bs_calculate_option_price exact Phi
             \<lparr>S = Fin s, K = Fin k, T = Fin t, r = Fin rate, sigma = Fin sg\<rparr>
             (PyStr ''Call Option'') = Inr (PyFloat (Fin c))
         \<and> bs_calculate_option_price exact Phi
             \<lparr>S = Fin s, K = Fin k, T = Fin t, r = Fin rate, sigma = Fin sg\<rparr>
             (PyStr ''Put Option'') = Inr (PyFloat (Fin p))
         \<and> 0 < c \<and> 0 < p \<and> c - p = s - k * exp (- rate * t)"
proof -
  have Phi: "Phi = std_normal_cdf"
    by (rule standard_normal_cdf_unique [OF assms(1)])
  define x1 where "x1 = (ln (s / k) + (rate + 0.5 * sg\<^sup>2) * t) / (sg * sqrt t)"
  define x2 where "x2 = (ln (s / k) + (rate - 0.5 * sg\<^sup>2) * t) / (sg * sqrt t)"
  define c where "c = s * std_normal_cdf x1 - k * exp (- rate * t) * std_normal_cdf x2"
  define p where
    "p = k * exp (- rate * t) * std_normal_cdf (- x2) - s * std_normal_cdf (- x1)"
  have 1: "bs_calculate_option_price exact Phi
             \<lparr>S = Fin s, K = Fin k, T = Fin t, r = Fin rate, sigma = Fin sg\<rparr>
             (PyStr ''Call Option'') = Inr (PyFloat (Fin c))"
    unfolding bs_entry_call Phi c_def x1_def x2_def
    by (rule call_hook_exact [OF assms(2-5)])
  have 2: "bs_calculate_option_price exact Phi
             \<lparr>S = Fin s, K = Fin k, T = Fin t, r = Fin rate, sigma = Fin sg\<rparr>
             (PyStr ''Put Option'') = Inr (PyFloat (Fin p))"
    unfolding bs_entry_put Phi p_def x1_def x2_def
    by (rule put_hook_exact [OF assms(2-5)])
  have 3: "0 < c"
    unfolding c_def x1_def x2_def by (rule bs_call_pos [OF assms(2-5)])
  have 4: "0 < p"
    unfolding p_def x1_def x2_def by (rule bs_put_pos [OF assms(2-5)])
  have 5: "c - p = s - k * exp (- rate * t)"
    unfolding c_def p_def by (rule bs_parity)
  show ?thesis using 1 2 3 4 5 by blast
qed

section \<open>Put-call parity in double precision\<close>

lemma binary64_rel_error:
  assumes "\<bar>x\<bar> \<le> 2 ^ 1023"
  obtains y where "binary64 x = Fin y" and "\<bar>y - x\<bar> \<le> \<bar>x\<bar> / 2 ^ 53 + 1 / 2 ^ 1075"
  using binary64_finite [OF assms] round_double_relative_error [of x] by blast

lemma binary64_abs_error:
  assumes "\<bar>x\<bar> \<le> B" and "1 \<le> B" and "B \<le> 2 ^ 1000"
  obtains y where "binary64 x = Fin y" and "\<bar>y - x\<bar> \<le> B / 2 ^ 52"
proof -
  have "(2::real) ^ 1000 \<le> 2 ^ 1023" by simp
  then have "\<bar>x\<bar> \<le> 2 ^ 1023" using assms(1,3) by linarith
  then obtain y where y: "binary64 x = Fin y" "\<bar>y - x\<bar> \<le> \<bar>x\<bar> / 2 ^ 53 + 1 / 2 ^ 1075"
    by (rule binary64_rel_error)
  have "\<bar>x\<bar> / 2 ^ 53 \<le> B / 2 ^ 53"
    using assms(1) by (intro divide_right_mono) simp_all
  moreover have "(1::real) / 2 ^ 1075 \<le> 1 / 2 ^ 53" by simp
  moreover have "(1::real) / 2 ^ 53 \<le> B / 2 ^ 53"
    using assms(2) by (intro divide_right_mono) simp_all
  moreover have "B / 2 ^ 53 + B / 2 ^ 53 = B / 2 ^ 52" by simp
  ultimately have "\<bar>y - x\<bar> \<le> B / 2 ^ 52" using y(2) by linarith
  then show ?thesis using y(1) that by blast
qed

lemma binary64_magnitude:
  assumes "\<bar>x\<bar> \<le> B" and "1 \<le> B" and "B \<le> 2 ^ 1000"
  obtains y where "binary64 x = Fin y" and "\<bar>y\<bar> \<le> 2 * B"
proof -
  obtain y where y: "binary64 x = Fin y" "\<bar>y - x\<bar> \<le> B / 2 ^ 52"
    using binary64_abs_error [OF assms] by blast
  have "B / 2 ^ 52 \<le> B / 1"
    using assms(2) by (intro divide_left_mono) simp_all
  then have "\<bar>y\<bar> \<le> 2 * B" using y(2) assms(1) by linarith
  then show ?thesis using y(1) that by blast
qed

lemma binary64_positive:
  assumes "1 / 2 ^ 1000 \<le> x" and "x \<le> 2 ^ 1000"
  obtains y where "binary64 x = Fin y" and "x / 2 \<le> y" and "y \<le> 2 * x"
proof -
  have x0: "0 < x"
  proof -
    have "(0::real) < 1 / 2 ^ 1000" by simp
    then show ?thesis using assms(1) by linarith
  qed
  have "(2::real) ^ 1000 \<le> 2 ^ 1023" by simp
  then have "\<bar>x\<bar> \<le> 2 ^ 1023" using assms(2) x0 by linarith
  then obtain y where y: "binary64 x = Fin y" "\<bar>y - x\<bar> \<le> \<bar>x\<bar> / 2 ^ 53 + 1 / 2 ^ 1075"
    by (rule binary64_rel_error)
  have "(1::real) / 2 ^ 1075 = (1 / 2 ^ 1000) / 2 ^ 75"
    by (simp add: power_add [symmetric])
  also have "\<dots> \<le> x / 2 ^ 75"
    using assms(1) by (intro divide_right_mono) simp_all
  also have "\<dots> \<le> x / 2 ^ 53"
    using x0 by (intro divide_left_mono) simp_all
  finally have e: "(1::real) / 2 ^ 1075 \<le> x / 2 ^ 53" .
  have "x / 2 ^ 53 \<le> x / 4"
    using x0 by (intro divide_left_mono) simp_all
  then have "\<bar>y - x\<bar> \<le> x / 2" using y(2) e x0 by simp
  then have "x / 2 \<le> y" "y \<le> 2 * x" using x0 by linarith+
  then show ?thesis using y(1) that by blast
qed


lemma quotient_finite:
  assumes "\<bar>lg\<bar> \<le> 2 ^ 42" and "\<bar>m0\<bar> \<le> 2 ^ 42" and "0 < t" and "t \<le> 2 ^ 20"
    and "1 / 2 ^ 32 \<le> dn"
  obtains y where
    "np_div binary64 (xadd binary64 (Fin lg) (xmul binary64 (binary64 m0) (Fin t))) (Fin dn) = Fin y"
proof -
  obtain m where m: "binary64 m0 = Fin m" "\<bar>m\<bar> \<le> 2 * 2 ^ 42"
    by (rule binary64_magnitude [OF assms(2)]) simp_all
  have "\<bar>m * t\<bar> \<le> (2 * 2 ^ 42) * 2 ^ 20"
    unfolding abs_mult using m(2) assms(3,4) by (intro mult_mono) simp_all
  then have "\<bar>m * t\<bar> \<le> 2 ^ 63" by simp
  then obtain n where n: "binary64 (m * t) = Fin n" "\<bar>n\<bar> \<le> 2 * 2 ^ 63"
    by (rule binary64_magnitude) simp_all
  have "\<bar>lg + n\<bar> \<le> 2 ^ 65" using assms(1) n(2) by simp
  then obtain nm where nm: "binary64 (lg + n) = Fin nm" "\<bar>nm\<bar> \<le> 2 * 2 ^ 65"
    by (rule binary64_magnitude) simp_all
  have d0: "0 < dn"
  proof -
    have "(0::real) < 1 / 2 ^ 32" by simp
    then show ?thesis using assms(5) by linarith
  qed
  have "1 / dn \<le> 1 / (1 / 2 ^ 32)"
    using assms(5) by (intro divide_left_mono) simp_all
  then have i: "1 / dn \<le> 2 ^ 32" by simp
  have "\<bar>nm / dn\<bar> = \<bar>nm\<bar> * (1 / dn)" using d0 by (simp add: abs_divide)
  also have "\<dots> \<le> (2 * 2 ^ 65) * 2 ^ 32"
    using nm(2) i d0 by (intro mult_mono) simp_all
  finally have "\<bar>nm / dn\<bar> \<le> 2 ^ 98" by simp
  then obtain y where y: "binary64 (nm / dn) = Fin y" "\<bar>y\<bar> \<le> 2 * 2 ^ 98"
    by (rule binary64_magnitude) simp_all
  have "np_div binary64 (xadd binary64 (Fin lg) (xmul binary64 (binary64 m0) (Fin t))) (Fin dn)
      = Fin y"
    using d0 by (simp add: m(1) n(1) nm(1) y(1))
  then show ?thesis using that by blast
qed

lemma logarithm_finite:
  assumes "1 / 2 ^ 20 \<le> s" and "s \<le> 2 ^ 20" and "1 / 2 ^ 20 \<le> k" and "k \<le> 2 ^ 20"
  obtains lg where "np_log binary64 (binary64 (s / k)) = Fin lg" and "\<bar>lg\<bar> \<le> 2 ^ 42"
proof -
  have p: "(0::real) < 1 / 2 ^ 20" by simp
  have s0: "0 < s" and k0: "0 < k" using assms(1,3) p by linarith+
  have "(1 / 2 ^ 20) / 2 ^ 20 \<le> s / k"
    using assms(1,4) k0 by (intro frac_le) simp_all
  then have l: "1 / 2 ^ 40 \<le> s / k" by simp
  have "s / k \<le> 2 ^ 20 / (1 / 2 ^ 20)"
    using assms(2,3) s0 by (intro frac_le) simp_all
  then have h: "s / k \<le> 2 ^ 40" by simp
  have "(1::real) / 2 ^ 1000 \<le> 1 / 2 ^ 40" by simp
  then have l': "1 / 2 ^ 1000 \<le> s / k" using l by linarith
  have "(2::real) ^ 40 \<le> 2 ^ 1000" by simp
  then have h': "s / k \<le> 2 ^ 1000" using h by linarith
  define x where "x = s / k"
  obtain q where q: "binary64 (s / k) = Fin q" "x / 2 \<le> q" "q \<le> 2 * x"
    using binary64_positive [OF l' h'] unfolding x_def by blast
  have lx: "1 / 2 ^ 40 \<le> x" and hx: "x \<le> 2 ^ 40" using l h by (simp_all add: x_def)
  have "(1::real) / 2 ^ 41 = (1 / 2 ^ 40) / 2" by simp
  also have "\<dots> \<le> x / 2" using lx by (intro divide_right_mono) simp_all
  finally have ql: "1 / 2 ^ 41 \<le> q" using q(2) by linarith
  have "2 * x \<le> 2 * 2 ^ 40" using hx by (intro mult_left_mono) simp_all
  then have qh: "q \<le> 2 ^ 41" using q(3) by simp
  have "(0::real) < 1 / 2 ^ 41" by simp
  then have q0: "0 < q" using ql by linarith
  have "ln q \<le> q - 1" by (rule ln_le_minus_one [OF q0])
  then have u: "ln q \<le> 2 ^ 41" using qh by linarith
  have "ln (1 / q) \<le> 1 / q - 1" using q0 by (intro ln_le_minus_one) simp
  moreover have "1 / q \<le> 1 / (1 / 2 ^ 41)"
    using ql by (intro divide_left_mono) simp_all
  moreover have "ln (1 / q) = - ln q" using q0 by (simp add: ln_div)
  ultimately have "- ln q \<le> 2 ^ 41" by simp
  then have "\<bar>ln q\<bar> \<le> 2 ^ 41" using u by (simp add: abs_le_iff)
  then obtain lg where lg: "binary64 (ln q) = Fin lg" "\<bar>lg\<bar> \<le> 2 * 2 ^ 41"
    by (rule binary64_magnitude) simp_all
  have "np_log binary64 (binary64 (s / k)) = Fin lg" using q0 by (simp add: q(1) lg(1))
  moreover have "\<bar>lg\<bar> \<le> 2 ^ 42" using lg(2) by simp
  ultimately show ?thesis using that by blast
qed

lemma half_square_finite:
  assumes "1 / 2 ^ 20 \<le> sg" and "sg \<le> 2 ^ 20"
  obtains sq hv where "binary64 (sg * sg) = Fin sq"
    and "xmul binary64 (Fin 0.5) (Fin sq) = Fin hv" and "\<bar>hv\<bar> \<le> 2 ^ 41"
proof -
  have "(0::real) < 1 / 2 ^ 20" by simp
  then have g0: "0 < sg" using assms(1) by linarith
  have "sg * sg \<le> 2 ^ 20 * 2 ^ 20"
    using assms(2) g0 by (intro mult_mono) simp_all
  then have "\<bar>sg * sg\<bar> \<le> 2 ^ 40" by simp
  then obtain sq where sq: "binary64 (sg * sg) = Fin sq" "\<bar>sq\<bar> \<le> 2 * 2 ^ 40"
    by (rule binary64_magnitude) simp_all
  have "\<bar>0.5 * sq\<bar> \<le> 2 ^ 40" using sq(2) by simp
  then obtain hv where hv: "binary64 (0.5 * sq) = Fin hv" "\<bar>hv\<bar> \<le> 2 * 2 ^ 40"
    by (rule binary64_magnitude) simp_all
  have "xmul binary64 (Fin 0.5) (Fin sq) = Fin hv" using hv(1) by simp
  moreover have "\<bar>hv\<bar> \<le> 2 ^ 41" using hv(2) by simp
  ultimately show ?thesis using sq(1) that by blast
qed

lemma divisor_positive:
  assumes "1 / 2 ^ 20 \<le> t" and "t \<le> 2 ^ 20" and "1 / 2 ^ 20 \<le> sg" and "sg \<le> 2 ^ 20"
  obtains dn where "xmul binary64 (Fin sg) (np_sqrt binary64 (Fin t)) = Fin dn"
    and "1 / 2 ^ 32 \<le> dn"
proof -
  have p: "(0::real) < 1 / 2 ^ 20" by simp
  have t0: "0 < t" and g0: "0 < sg" using assms(1,3) p by linarith+
  have "sqrt ((1 / 2 ^ 10)\<^sup>2) \<le> sqrt t"
    using assms(1) by (simp only: real_sqrt_le_iff) (simp add: power_divide)
  then have rl: "1 / 2 ^ 10 \<le> sqrt t" by simp
  have "sqrt t \<le> sqrt ((2 ^ 10)\<^sup>2)"
    using assms(2) by (simp only: real_sqrt_le_iff) simp
  then have rh: "sqrt t \<le> 2 ^ 10" by simp
  have "(1::real) / 2 ^ 1000 \<le> 1 / 2 ^ 10" by simp
  then have rl': "1 / 2 ^ 1000 \<le> sqrt t" using rl by linarith
  have "(2::real) ^ 10 \<le> 2 ^ 1000" by simp
  then have rh': "sqrt t \<le> 2 ^ 1000" using rh by linarith
  obtain sr where sr: "binary64 (sqrt t) = Fin sr" "sqrt t / 2 \<le> sr" "sr \<le> 2 * sqrt t"
    using binary64_positive [OF rl' rh'] by blast
  have srl: "1 / 2 ^ 11 \<le> sr" using sr(2) rl by simp
  have srh: "sr \<le> 2 ^ 11" using sr(3) rh by simp
  have "(0::real) < 1 / 2 ^ 11" by simp
  then have sr0: "0 \<le> sr" using srl by linarith
  have "(1 / 2 ^ 20) * (1 / 2 ^ 11) \<le> sg * sr"
    using assms(3) srl by (intro mult_mono) simp_all
  then have pl: "1 / 2 ^ 31 \<le> sg * sr" by simp
  have "sg * sr \<le> 2 ^ 20 * 2 ^ 11"
    using assms(4) srh g0 sr0 by (intro mult_mono) simp_all
  then have ph: "sg * sr \<le> 2 ^ 31" by simp
  have "(1::real) / 2 ^ 1000 \<le> 1 / 2 ^ 31" by simp
  then have pl': "1 / 2 ^ 1000 \<le> sg * sr" using pl by linarith
  have "(2::real) ^ 31 \<le> 2 ^ 1000" by simp
  then have ph': "sg * sr \<le> 2 ^ 1000" using ph by linarith
  obtain dn where dn: "binary64 (sg * sr) = Fin dn" "sg * sr / 2 \<le> dn" "dn \<le> 2 * (sg * sr)"
    using binary64_positive [OF pl' ph'] by blast
  have "1 / 2 ^ 32 \<le> dn" using dn(2) pl by simp
  moreover have "xmul binary64 (Fin sg) (np_sqrt binary64 (Fin t)) = Fin dn"
    using t0 by (simp add: sr(1) dn(1))
  ultimately show ?thesis using that by blast
qed

text \<open>
  In the range of parameters below, no operation of \<open>d1\<close> and \<open>d2\<close> overflows or
  underflows to zero, and both are finite doubles.
\<close>

lemma terms_finite:
  assumes "1 / 2 ^ 20 \<le> s" and "s \<le> 2 ^ 20" and "1 / 2 ^ 20 \<le> k" and "k \<le> 2 ^ 20"
    and "1 / 2 ^ 20 \<le> t" and "t \<le> 2 ^ 20" and "1 / 2 ^ 20 \<le> sg" and "sg \<le> 2 ^ 20"
    and "\<bar>rate\<bar> \<le> 2 ^ 20"
  obtains y1 y2 where
    "d1 binary64 \<lparr>S = Fin s, K = Fin k, T = Fin t, r = Fin rate, sigma = Fin sg\<rparr> = Inr (Fin y1)"
    "d2 binary64 \<lparr>S = Fin s, K = Fin k, T = Fin t, r = Fin rate, sigma = Fin sg\<rparr> = Inr (Fin y2)"
proof -
  have p: "(0::real) < 1 / 2 ^ 20" by simp
  have k0: "0 < k" and t0: "0 < t" using assms(3,5) p by linarith+
  obtain lg where lg: "np_log binary64 (binary64 (s / k)) = Fin lg" "\<bar>lg\<bar> \<le> 2 ^ 42"
    using logarithm_finite [OF assms(1-4)] by blast
  obtain sq hv where hv: "binary64 (sg * sg) = Fin sq"
      "xmul binary64 (Fin 0.5) (Fin sq) = Fin hv" "\<bar>hv\<bar> \<le> 2 ^ 41"
    using half_square_finite [OF assms(7,8)] by blast
  obtain dn where dn: "xmul binary64 (Fin sg) (np_sqrt binary64 (Fin t)) = Fin dn"
      "1 / 2 ^ 32 \<le> dn"
    using divisor_positive [OF assms(5-8)] by blast
  have "\<bar>rate + hv\<bar> \<le> 2 ^ 42" using assms(9) hv(3) by simp
  then obtain y1 where y1: "np_div binary64
      (xadd binary64 (Fin lg) (xmul binary64 (binary64 (rate + hv)) (Fin t))) (Fin dn) = Fin y1"
    using quotient_finite [OF lg(2) _ t0 assms(6) dn(2)] by blast
  have "\<bar>rate + - hv\<bar> \<le> 2 ^ 42" using assms(9) hv(3) by simp
  then obtain y2 where y2: "np_div binary64
      (xadd binary64 (Fin lg) (xmul binary64 (binary64 (rate + - hv)) (Fin t))) (Fin dn) = Fin y2"
    using quotient_finite [OF lg(2) _ t0 assms(6) dn(2)] by blast
  have q: "py_truediv binary64 (Fin s) (Fin k) = Inr (binary64 (s / k))"
    using k0 by (simp add: py_truediv_def)
  have f: "float_pow2 binary64 (Fin sg) = Inr (Fin sq)"
    by (simp add: hv(1))
  have 1: "d1 binary64 \<lparr>S = Fin s, K = Fin k, T = Fin t, r = Fin rate, sigma = Fin sg\<rparr>
      = Inr (Fin y1)"
    unfolding d1_def
    by (simp only: BlackScholesModel.select_convs q f sum.case lg(1) hv(2) dn(1) xadd.simps y1)
  have 2: "d2 binary64 \<lparr>S = Fin s, K = Fin k, T = Fin t, r = Fin rate, sigma = Fin sg\<rparr>
      = Inr (Fin y2)"
    unfolding d2_def
    by (simp only: BlackScholesModel.select_convs q f sum.case lg(1) hv(2) dn(1) xsub_def
        xneg.simps xadd.simps y2)
  show ?thesis using 1 2 that by blast
qed


lemma exp_near_one:
  fixes d :: real
  assumes "\<bar>d\<bar> \<le> 1 / 2"
  shows "\<bar>exp d - 1\<bar> \<le> 2 * \<bar>d\<bar>"
proof (cases "0 \<le> d")
  case True
  then have "exp d \<le> 1 + 2 * d" using assms by (intro real_exp_bound_lemma) simp_all
  moreover have "1 \<le> exp d" using True by simp
  ultimately show ?thesis using True by linarith
next
  case False
  then have "exp d \<le> 1" by simp
  moreover have "1 + d \<le> exp d" by (rule exp_ge_add_one_self)
  ultimately show ?thesis using False by linarith
qed

lemma discounted_strike_error:
  assumes "1 / 2 ^ 20 \<le> k" and "k \<le> 2 ^ 20" and "\<bar>rate * t\<bar> \<le> 64"
    and "k * exp (- rate * t) \<le> 2 ^ 20"
  obtains ke where
    "xmul binary64 (Fin k) (np_exp binary64 (xmul binary64 (xneg (Fin rate)) (Fin t))) = Fin ke"
    and "\<bar>ke - k * exp (- rate * t)\<bar> \<le> 1 / 2 ^ 24" and "\<bar>ke\<bar> \<le> 2 ^ 21"
proof -
  define w where "w = - rate * t"
  define g0 where "g0 = exp w"
  define K0 where "K0 = k * g0"
  have p: "(0::real) < 1 / 2 ^ 20" by simp
  have k0: "0 < k" using assms(1) p by linarith
  have g00: "0 < g0" by (simp add: g0_def)
  have K00: "0 < K0" using k0 g00 by (simp add: K0_def)
  have K0h: "K0 \<le> 2 ^ 20" using assms(4) by (simp add: K0_def g0_def w_def)
  have "\<bar>w\<bar> \<le> 64" using assms(3) by (simp add: w_def)
  then obtain z where z: "binary64 w = Fin z" "\<bar>z - w\<bar> \<le> 64 / 2 ^ 52"
    by (rule binary64_abs_error) simp_all
  define d where "d = z - w"
  define g where "g = exp z"
  have dd: "\<bar>d\<bar> \<le> 1 / 2 ^ 46" using z(2) by (simp add: d_def)
  have "(1::real) / 2 ^ 46 \<le> 1 / 2" by simp
  then have "\<bar>d\<bar> \<le> 1 / 2" using dd by linarith
  then have "\<bar>exp d - 1\<bar> \<le> 2 * \<bar>d\<bar>" by (rule exp_near_one)
  then have ed: "\<bar>exp d - 1\<bar> \<le> 1 / 2 ^ 45" using dd by simp
  have "z = w + d" by (simp add: d_def)
  then have gg: "g = g0 * exp d" by (simp add: g_def g0_def exp_add)
  have "k * g - K0 = K0 * (exp d - 1)"
    by (simp add: gg K0_def algebra_simps)
  then have "\<bar>k * g - K0\<bar> = K0 * \<bar>exp d - 1\<bar>"
    using K00 by (simp add: abs_mult)
  also have "\<dots> \<le> 2 ^ 20 * (1 / 2 ^ 45)"
    using K0h ed K00 by (intro mult_mono) simp_all
  finally have e1: "\<bar>k * g - K0\<bar> \<le> 1 / 2 ^ 25" by simp
  have c1: "(2::real) ^ 20 + 2 ^ 20 = 2 ^ 21" by simp
  have "(1::real) / 2 ^ 25 \<le> 2 ^ 20" by simp
  then have kg: "k * g \<le> 2 ^ 21" using e1 K0h c1 by linarith
  have g0': "0 < g" by (simp add: g_def)
  have "g = (k * g) / k" using k0 by simp
  also have "\<dots> \<le> 2 ^ 21 / (1 / 2 ^ 20)"
    using kg assms(1) k0 g0' by (intro frac_le) simp_all
  finally have gh: "g \<le> 2 ^ 41" by simp
  have "(2::real) ^ 41 \<le> 2 ^ 1023" by simp
  then have "\<bar>g\<bar> \<le> 2 ^ 1023" using gh g0' by linarith
  then obtain E where E: "binary64 g = Fin E" "\<bar>E - g\<bar> \<le> \<bar>g\<bar> / 2 ^ 53 + 1 / 2 ^ 1075"
    by (rule binary64_rel_error)
  have "k * E - k * g = k * (E - g)" by (simp add: algebra_simps)
  then have "\<bar>k * E - k * g\<bar> = k * \<bar>E - g\<bar>"
    using k0 by (simp add: abs_mult)
  also have "\<dots> \<le> k * (g / 2 ^ 53 + 1 / 2 ^ 1075)"
    using E(2) k0 g0' by (intro mult_left_mono) simp_all
  also have "\<dots> = (k * g) / 2 ^ 53 + k / 2 ^ 1075"
    by (simp add: algebra_simps)
  also have "\<dots> \<le> 2 ^ 21 / 2 ^ 53 + 2 ^ 20 / 2 ^ 1075"
    using kg assms(2) by (intro add_mono divide_right_mono) simp_all
  also have "\<dots> \<le> 1 / 2 ^ 31" by simp
  finally have e2: "\<bar>k * E - k * g\<bar> \<le> 1 / 2 ^ 31" .
  have kg0: "0 \<le> k * g" using k0 g0' by simp
  have c2: "(2::real) ^ 21 + 2 ^ 21 = 2 ^ 22" by simp
  have "(1::real) / 2 ^ 31 \<le> 2 ^ 21" by simp
  then have "\<bar>k * E\<bar> \<le> 2 ^ 22" using e2 kg kg0 c2 by linarith
  then obtain ke where ke: "binary64 (k * E) = Fin ke" "\<bar>ke - k * E\<bar> \<le> 2 ^ 22 / 2 ^ 52"
    by (rule binary64_abs_error) simp_all
  have e3: "\<bar>ke - k * E\<bar> \<le> 1 / 2 ^ 30" using ke(2) by simp
  have "\<bar>ke - K0\<bar> \<le> \<bar>ke - k * E\<bar> + \<bar>k * E - k * g\<bar> + \<bar>k * g - K0\<bar>" by linarith
  also have "\<dots> \<le> 1 / 2 ^ 30 + 1 / 2 ^ 31 + 1 / 2 ^ 25"
    using e1 e2 e3 by (intro add_mono)
  also have "\<dots> \<le> 1 / 2 ^ 24" by simp
  finally have r1: "\<bar>ke - K0\<bar> \<le> 1 / 2 ^ 24" .
  have "(1::real) / 2 ^ 24 \<le> 2 ^ 20" by simp
  then have r2: "\<bar>ke\<bar> \<le> 2 ^ 21" using r1 K0h K00 c1 by linarith
  have "xmul binary64 (xneg (Fin rate)) (Fin t) = binary64 w"
    by (simp add: w_def)
  then have "xmul binary64 (Fin k) (np_exp binary64 (xmul binary64 (xneg (Fin rate)) (Fin t)))
      = Fin ke"
    by (simp add: z(1) E(1) [unfolded g_def] ke(1))
  moreover have "\<bar>ke - k * exp (- rate * t)\<bar> \<le> 1 / 2 ^ 24"
    using r1 by (simp add: K0_def g0_def w_def)
  ultimately show ?thesis using r2 that by blast
qed


lemma probability_rounded:
  assumes "0 \<le> P" and "P \<le> 1"
  obtains a where "binary64 P = Fin a" and "\<bar>a - P\<bar> \<le> 1 / 2 ^ 52" and "\<bar>a\<bar> \<le> 2"
proof -
  have "\<bar>P\<bar> \<le> 1" using assms by simp
  then obtain a where a: "binary64 P = Fin a" "\<bar>a - P\<bar> \<le> 1 / 2 ^ 52"
    by (rule binary64_abs_error) simp_all
  have "(1::real) / 2 ^ 52 \<le> 1" by simp
  then have "\<bar>a\<bar> \<le> 2" using a(2) assms by linarith
  then show ?thesis using a that by blast
qed

lemma product_rounded:
  assumes "\<bar>x\<bar> \<le> X" and "\<bar>a\<bar> \<le> 2" and "1 \<le> X" and "X \<le> 2 ^ 30"
  obtains y where "binary64 (x * a) = Fin y" and "\<bar>y - x * a\<bar> \<le> X / 2 ^ 51"
    and "\<bar>y\<bar> \<le> 4 * X"
proof -
  have m: "\<bar>x * a\<bar> \<le> X * 2"
    unfolding abs_mult using assms(1,2,3) by (intro mult_mono) simp_all
  have "(2::real) ^ 30 * 2 \<le> 2 ^ 1000" by simp
  then have h: "X * 2 \<le> 2 ^ 1000" using assms(4) by linarith
  have l: "1 \<le> X * 2" using assms(3) by linarith
  obtain y where y: "binary64 (x * a) = Fin y" "\<bar>y - x * a\<bar> \<le> X * 2 / 2 ^ 52"
    using binary64_abs_error [OF m l h] by blast
  have e: "\<bar>y - x * a\<bar> \<le> X / 2 ^ 51" using y(2) by simp
  have "X / 2 ^ 51 \<le> X / 1" using assms(3) by (intro divide_left_mono) simp_all
  then have "\<bar>y\<bar> \<le> 4 * X" using e m by linarith
  then show ?thesis using y(1) e that by blast
qed

text \<open>
  Put-call parity of the rounded prices, for a spot price and a rounded discounted
  strike of moderate size and any two probabilities.
\<close>

lemma parity_rounded:
  assumes "\<bar>s\<bar> \<le> 2 ^ 20" and "\<bar>ke\<bar> \<le> 2 ^ 21"
    and "0 \<le> P1" and "P1 \<le> 1" and "0 \<le> P2" and "P2 \<le> 1"
  obtains c p where
    "xsub binary64 (xmul binary64 (Fin s) (binary64 P1))
       (xmul binary64 (Fin ke) (binary64 P2)) = Fin c"
    and "xsub binary64 (xmul binary64 (Fin ke) (binary64 (1 - P2)))
       (xmul binary64 (Fin s) (binary64 (1 - P1))) = Fin p"
    and "\<bar>(c - p) - (s - ke)\<bar> \<le> 1 / 2 ^ 26"
proof -
  obtain a1 where a1: "binary64 P1 = Fin a1" "\<bar>a1 - P1\<bar> \<le> 1 / 2 ^ 52" "\<bar>a1\<bar> \<le> 2"
    using probability_rounded [OF assms(3,4)] by blast
  obtain a2 where a2: "binary64 P2 = Fin a2" "\<bar>a2 - P2\<bar> \<le> 1 / 2 ^ 52" "\<bar>a2\<bar> \<le> 2"
    using probability_rounded [OF assms(5,6)] by blast
  have "0 \<le> 1 - P1" "1 - P1 \<le> 1" using assms(3,4) by simp_all
  then obtain b1 where b1: "binary64 (1 - P1) = Fin b1" "\<bar>b1 - (1 - P1)\<bar> \<le> 1 / 2 ^ 52"
      "\<bar>b1\<bar> \<le> 2"
    using probability_rounded by blast
  have "0 \<le> 1 - P2" "1 - P2 \<le> 1" using assms(5,6) by simp_all
  then obtain b2 where b2: "binary64 (1 - P2) = Fin b2" "\<bar>b2 - (1 - P2)\<bar> \<le> 1 / 2 ^ 52"
      "\<bar>b2\<bar> \<le> 2"
    using probability_rounded by blast
  obtain A where A: "binary64 (s * a1) = Fin A" "\<bar>A - s * a1\<bar> \<le> 2 ^ 20 / 2 ^ 51"
      "\<bar>A\<bar> \<le> 4 * 2 ^ 20"
    by (rule product_rounded [OF assms(1) a1(3)]) simp_all
  obtain D where D: "binary64 (s * b1) = Fin D" "\<bar>D - s * b1\<bar> \<le> 2 ^ 20 / 2 ^ 51"
      "\<bar>D\<bar> \<le> 4 * 2 ^ 20"
    by (rule product_rounded [OF assms(1) b1(3)]) simp_all
  obtain B where B: "binary64 (ke * a2) = Fin B" "\<bar>B - ke * a2\<bar> \<le> 2 ^ 21 / 2 ^ 51"
      "\<bar>B\<bar> \<le> 4 * 2 ^ 21"
    by (rule product_rounded [OF assms(2) a2(3)]) simp_all
  obtain C where C: "binary64 (ke * b2) = Fin C" "\<bar>C - ke * b2\<bar> \<le> 2 ^ 21 / 2 ^ 51"
      "\<bar>C\<bar> \<le> 4 * 2 ^ 21"
    by (rule product_rounded [OF assms(2) b2(3)]) simp_all
  have n1: "4 * (2::real) ^ 20 + 4 * 2 ^ 21 \<le> 2 ^ 24" by simp
  have "\<bar>A - B\<bar> \<le> 2 ^ 24" using A(3) B(3) n1 by linarith
  then obtain c where c: "binary64 (A - B) = Fin c" "\<bar>c - (A - B)\<bar> \<le> 2 ^ 24 / 2 ^ 52"
    by (rule binary64_abs_error) simp_all
  have "\<bar>C - D\<bar> \<le> 2 ^ 24" using C(3) D(3) n1 by linarith
  then obtain p where p: "binary64 (C - D) = Fin p" "\<bar>p - (C - D)\<bar> \<le> 2 ^ 24 / 2 ^ 52"
    by (rule binary64_abs_error) simp_all
  have "s * a1 + s * b1 - s = s * ((a1 - P1) + (b1 - (1 - P1)))"
    by (simp add: algebra_simps)
  then have "\<bar>s * a1 + s * b1 - s\<bar> = \<bar>s\<bar> * \<bar>(a1 - P1) + (b1 - (1 - P1))\<bar>"
    by (simp only: abs_mult)
  also have "\<dots> \<le> 2 ^ 20 * (1 / 2 ^ 52 + 1 / 2 ^ 52)"
    using assms(1) a1(2) b1(2) by (intro mult_mono) linarith+
  finally have h1: "\<bar>s * a1 + s * b1 - s\<bar> \<le> 1 / 2 ^ 31" by simp
  have "ke * a2 + ke * b2 - ke = ke * ((a2 - P2) + (b2 - (1 - P2)))"
    by (simp add: algebra_simps)
  then have "\<bar>ke * a2 + ke * b2 - ke\<bar> = \<bar>ke\<bar> * \<bar>(a2 - P2) + (b2 - (1 - P2))\<bar>"
    by (simp only: abs_mult)
  also have "\<dots> \<le> 2 ^ 21 * (1 / 2 ^ 52 + 1 / 2 ^ 52)"
    using assms(2) a2(2) b2(2) by (intro mult_mono) linarith+
  finally have h2: "\<bar>ke * a2 + ke * b2 - ke\<bar> \<le> 1 / 2 ^ 30" by simp
  define u :: real where "u = 1 / 2 ^ 31"
  have eA: "\<bar>A - s * a1\<bar> \<le> u" and eD: "\<bar>D - s * b1\<bar> \<le> u"
    using A(2) D(2) by (simp_all add: u_def)
  have eB: "\<bar>B - ke * a2\<bar> \<le> 2 * u" and eC: "\<bar>C - ke * b2\<bar> \<le> 2 * u"
    using B(2) C(2) by (simp_all add: u_def)
  have ec: "\<bar>c - (A - B)\<bar> \<le> 8 * u" and ep: "\<bar>p - (C - D)\<bar> \<le> 8 * u"
    using c(2) p(2) by (simp_all add: u_def)
  have e1: "\<bar>s * a1 + s * b1 - s\<bar> \<le> u" and e2: "\<bar>ke * a2 + ke * b2 - ke\<bar> \<le> 2 * u"
    using h1 h2 by (simp_all add: u_def)
  have "\<bar>(c - p) - (s - ke)\<bar> \<le> 32 * u"
    using eA eD eB eC ec ep e1 e2 by linarith
  then have r: "\<bar>(c - p) - (s - ke)\<bar> \<le> 1 / 2 ^ 26" by (simp add: u_def)
  have 1: "xsub binary64 (xmul binary64 (Fin s) (binary64 P1))
       (xmul binary64 (Fin ke) (binary64 P2)) = Fin c"
    by (simp add: a1(1) a2(1) A(1) B(1) c(1) xsub_def)
  have 2: "xsub binary64 (xmul binary64 (Fin ke) (binary64 (1 - P2)))
       (xmul binary64 (Fin s) (binary64 (1 - P1))) = Fin p"
    by (simp add: b1(1) b2(1) C(1) D(1) p(1) xsub_def)
  show ?thesis using 1 2 r that by blast
qed


lemma norm_cdf_standard: "norm_cdf rnd Phi (Fin y) 0.0 1.0 = rnd (Phi y)"
  by simp

lemma rounded_parity:
  assumes "1 / 2 ^ 20 \<le> s" and "s \<le> 2 ^ 20" and "1 / 2 ^ 20 \<le> k" and "k \<le> 2 ^ 20"
    and "1 / 2 ^ 20 \<le> t" and "t \<le> 2 ^ 20" and "1 / 2 ^ 20 \<le> sg" and "sg \<le> 2 ^ 20"
    and "\<bar>rate\<bar> \<le> 2 ^ 20" and "\<bar>rate * t\<bar> \<le> 64" and "k * exp (- rate * t) \<le> 2 ^ 20"
  shows "\<exists>c p.
           bs_calculate_option_price binary64 std_normal_cdf
             \<lparr>S = Fin s, K = Fin k, T = Fin t, r = Fin rate, sigma = Fin sg\<rparr>
             (PyStr ''Call Option'') = Inr (PyFloat (Fin c))
         \<and> bs_calculate_option_price binary64 std_normal_cdf
             \<lparr>S = Fin s, K = Fin k, T = Fin t, r = Fin rate, sigma = Fin sg\<rparr>
             (PyStr ''Put Option'') = Inr (PyFloat (Fin p))
         \<and> \<bar>(c - p) - (s - k * exp (- rate * t))\<bar> \<le> 1 / 10 ^ 6"
proof -
  obtain y1 y2 where y:
    "d1 binary64 \<lparr>S = Fin s, K = Fin k, T = Fin t, r = Fin rate, sigma = Fin sg\<rparr> = Inr (Fin y1)"
    "d2 binary64 \<lparr>S = Fin s, K = Fin k, T = Fin t, r = Fin rate, sigma = Fin sg\<rparr> = Inr (Fin y2)"
    using terms_finite [OF assms(1-9)] by blast
  obtain ke where ke:
    "xmul binary64 (Fin k) (np_exp binary64 (xmul binary64 (xneg (Fin rate)) (Fin t))) = Fin ke"
    "\<bar>ke - k * exp (- rate * t)\<bar> \<le> 1 / 2 ^ 24" "\<bar>ke\<bar> \<le> 2 ^ 21"
    using discounted_strike_error [OF assms(3,4,10,11)] by blast
  have "(0::real) < 1 / 2 ^ 20" by simp
  then have "0 < s" using assms(1) by linarith
  then have s: "\<bar>s\<bar> \<le> 2 ^ 20" using assms(2) by simp
  have P1: "0 \<le> std_normal_cdf y1" "std_normal_cdf y1 \<le> 1"
    using std_normal_cdf_pos [of y1] std_normal_cdf_less_1 [of y1] by simp_all
  have P2: "0 \<le> std_normal_cdf y2" "std_normal_cdf y2 \<le> 1"
    using std_normal_cdf_pos [of y2] std_normal_cdf_less_1 [of y2] by simp_all
  obtain c p where cp:
    "xsub binary64 (xmul binary64 (Fin s) (binary64 (std_normal_cdf y1)))
       (xmul binary64 (Fin ke) (binary64 (std_normal_cdf y2))) = Fin c"
    "xsub binary64 (xmul binary64 (Fin ke) (binary64 (1 - std_normal_cdf y2)))
       (xmul binary64 (Fin s) (binary64 (1 - std_normal_cdf y1))) = Fin p"
    "\<bar>(c - p) - (s - ke)\<bar> \<le> 1 / 2 ^ 26"
    using parity_rounded [OF s ke(3) P1 P2] by blast
  have 1: "bs_calculate_option_price binary64 std_normal_cdf
             \<lparr>S = Fin s, K = Fin k, T = Fin t, r = Fin rate, sigma = Fin sg\<rparr>
             (PyStr ''Call Option'') = Inr (PyFloat (Fin c))"
    unfolding bs_entry_call calculate_call_option_price_def
    by (simp only: y sum.case BlackScholesModel.select_convs norm_cdf_standard ke(1) cp(1))
  have 2: "bs_calculate_option_price binary64 std_normal_cdf
             \<lparr>S = Fin s, K = Fin k, T = Fin t, r = Fin rate, sigma = Fin sg\<rparr>
             (PyStr ''Put Option'') = Inr (PyFloat (Fin p))"
    unfolding bs_entry_put calculate_put_option_price_def
    by (simp only: y sum.case BlackScholesModel.select_convs xneg.simps norm_cdf_standard
        std_normal_cdf_minus ke(1) [unfolded xneg.simps] cp(2))
  have n: "(1::real) / 2 ^ 26 + 1 / 2 ^ 24 \<le> 1 / 10 ^ 6" by simp
  have "\<bar>(c - p) - (s - k * exp (- rate * t))\<bar> \<le> 1 / 10 ^ 6"
    using cp(3) ke(2) n by linarith
  then show ?thesis using 1 2 by blast
qed

text \<open>
  A parameter set with \<open>S > 0\<close>, \<open>K > 0\<close>, \<open>T > 0\<close> and \<open>sigma > 0\<close> for which, in double
  precision, the square of \<open>sigma\<close> and the divisor \<open>sigma * sqrt T\<close> underflow to zero:
  \<open>d1\<close> and \<open>d2\<close> are the quotient of zero by zero.
\<close>

lemma sqrt_small: "sqrt (1 / 2 ^ 1000) = 1 / 2 ^ 500"
  by (rule real_sqrt_unique) (simp_all add: power_divide [symmetric] power2_eq_square
      power_add [symmetric])

lemma binary64_small_maturity: "binary64 (1 / 2 ^ 1000) = Fin (1 / 2 ^ 1000)"
  by (rule binary64_eqI [where e = "- 1000"])
    (simp_all add: round_half_even_def max_double_def power_int_minus field_simps)

lemma binary64_small_sqrt: "binary64 (sqrt (1 / 2 ^ 1000)) = Fin (1 / 2 ^ 500)"
  unfolding sqrt_small
  by (rule binary64_eqI [where e = "- 500"])
    (simp_all add: round_half_even_def max_double_def power_int_minus field_simps)

lemma binary64_square_underflow: "binary64 (1 / 2 ^ 600 * (1 / 2 ^ 600)) = Fin 0"
  by (rule binary64_eqI [where e = "- 1200"])
    (simp_all add: round_half_even_def max_double_def power_int_minus field_simps)

lemma binary64_divisor_underflow: "binary64 (1 / 2 ^ 600 * (1 / 2 ^ 500)) = Fin 0"
  by (rule binary64_eqI [where e = "- 1100"])
    (simp_all add: round_half_even_def max_double_def power_int_minus field_simps)

lemma underflow_d1:
  "d1 binary64 \<lparr>S = Fin 1, K = Fin 1, T = Fin (1 / 2 ^ 1000), r = Fin 0,
                 sigma = Fin (1 / 2 ^ 600)\<rparr> = Inr NaN"
  using binary64_square_underflow binary64_divisor_underflow binary64_small_sqrt
  by (simp add: d1_def py_truediv_def binary64_0 binary64_1 inf_of_sign_def)

lemma underflow_d2:
  "d2 binary64 \<lparr>S = Fin 1, K = Fin 1, T = Fin (1 / 2 ^ 1000), r = Fin 0,
                 sigma = Fin (1 / 2 ^ 600)\<rparr> = Inr NaN"
  using binary64_square_underflow binary64_divisor_underflow binary64_small_sqrt
  by (simp add: d2_def py_truediv_def xsub_def binary64_0 binary64_1 inf_of_sign_def)

text \<open>
  C4, as the claim states it, fails: for the parameters above, which are valid, both
  prices are returned as NaN, and no relation between them holds.
\<close>

theorem parity_fails_on_underflow:
  "init binary64 (Fin 1) (Fin 1) (Fin (365 / 2 ^ 1000)) (Fin 0) (Fin (1 / 2 ^ 600)) =
     Inr \<lparr>S = Fin 1, K = Fin 1, T = Fin (1 / 2 ^ 1000), r = Fin 0,
          sigma = Fin (1 / 2 ^ 600)\<rparr>
   \<and> bs_calculate_option_price binary64 std_normal_cdf
       \<lparr>S = Fin 1, K = Fin 1, T = Fin (1 / 2 ^ 1000), r = Fin 0, sigma = Fin (1 / 2 ^ 600)\<rparr>
       (PyStr ''Call Option'') = Inr (PyFloat NaN)
   \<and> bs_calculate_option_price binary64 std_normal_cdf
       \<lparr>S = Fin 1, K = Fin 1, T = Fin (1 / 2 ^ 1000), r = Fin 0, sigma = Fin (1 / 2 ^ 600)\<rparr>
       (PyStr ''Put Option'') = Inr (PyFloat NaN)"
  using binary64_small_maturity underflow_d1 underflow_d2
  by (simp add: init_def py_truediv_def bs_entry_call bs_entry_put
      calculate_call_option_price_def calculate_put_option_price_def xsub_def
      xmul_NaN_right xadd_NaN_right)

text \<open>
  C4, amended. For the distribution function of the standard normal distribution and
  every valid parameter set (\<open>S > 0\<close>, \<open>K > 0\<close>, \<open>T > 0\<close>, \<open>sigma > 0\<close>, any rate): in the
  arithmetic of the real numbers the prices returned for the two selectors satisfy
  \<open>call - put = S - K * exp (- r * T)\<close> exactly; and in double precision, if \<open>S\<close>,
  \<open>K\<close>, \<open>T\<close> and \<open>sigma\<close> lie between \<open>2 powi (- 20)\<close> and \<open>2 ^ 20\<close>, the rate is at most
  \<open>2 ^ 20\<close> in absolute value, \<open>r * T\<close> is at most \<open>64\<close> in absolute value and
  \<open>K * exp (- r * T)\<close> is at most \<open>2 ^ 20\<close>, both prices are finite and
  \<open>call - put\<close> is within \<open>1e-6\<close> of \<open>S - K * exp (- r * T)\<close>.
\<close>

theorem put_call_parity:
  fixes s k t sg rate :: real
  assumes "is_standard_normal_cdf Phi" and "0 < s" and "0 < k" and "0 < t" and "0 < sg"
  shows "(\<exists>c p.
            bs_calculate_option_price exact Phi
              \<lparr>S = Fin s, K = Fin k, T = Fin t, r = Fin rate, sigma = Fin sg\<rparr>
              (PyStr ''Call Option'') = Inr (PyFloat (Fin c))
          \<and> bs_calculate_option_price exact Phi
              \<lparr>S = Fin s, K = Fin k, T = Fin t, r = Fin rate, sigma = Fin sg\<rparr>
              (PyStr ''Put Option'') = Inr (PyFloat (Fin p))
          \<and> c - p = s - k * exp (- rate * t))
       \<and> (1 / 2 ^ 20 \<le> s \<and> s \<le> 2 ^ 20 \<and> 1 / 2 ^ 20 \<le> k \<and> k \<le> 2 ^ 20
          \<and> 1 / 2 ^ 20 \<le> t \<and> t \<le> 2 ^ 20 \<and> 1 / 2 ^ 20 \<le> sg \<and> sg \<le> 2 ^ 20
          \<and> \<bar>rate\<bar> \<le> 2 ^ 20 \<and> \<bar>rate * t\<bar> \<le> 64 \<and> k * exp (- rate * t) \<le> 2 ^ 20
          \<longrightarrow>
          (\<exists>c p.
            bs_calculate_option_price binary64 Phi
              \<lparr>S = Fin s, K = Fin k, T = Fin t, r = Fin rate, sigma = Fin sg\<rparr>
              (PyStr ''Call Option'') = Inr (PyFloat (Fin c))
          \<and> bs_calculate_option_price binary64 Phi
              \<lparr>S = Fin s, K = Fin k, T = Fin t, r = Fin rate, sigma = Fin sg\<rparr>
              (PyStr ''Put Option'') = Inr (PyFloat (Fin p))
          \<and> \<bar>(c - p) - (s - k * exp (- rate * t))\<bar> \<le> 1 / 10 ^ 6))"
proof (intro conjI impI)
  obtain c p where
    "bs_calculate_option_price exact Phi
       \<lparr>S = Fin s, K = Fin k, T = Fin t, r = Fin rate, sigma = Fin sg\<rparr>
       (PyStr ''Call Option'') = Inr (PyFloat (Fin c))"
    "bs_calculate_option_price exact Phi
       \<lparr>S = Fin s, K = Fin k, T = Fin t, r = Fin rate, sigma = Fin sg\<rparr>
       (PyStr ''Put Option'') = Inr (PyFloat (Fin p))"
    "c - p = s - k * exp (- rate * t)"
    using exact_prices [OF assms] by blast
  then show "\<exists>c p.
      bs_calculate_option_price exact Phi
        \<lparr>S = Fin s, K = Fin k, T = Fin t, r = Fin rate, sigma = Fin sg\<rparr>
        (PyStr ''Call Option'') = Inr (PyFloat (Fin c))
    \<and> bs_calculate_option_price exact Phi
        \<lparr>S = Fin s, K = Fin k, T = Fin t, r = Fin rate, sigma = Fin sg\<rparr>
        (PyStr ''Put Option'') = Inr (PyFloat (Fin p))
    \<and> c - p = s - k * exp (- rate * t)"
    by blast
next
  assume b: "1 / 2 ^ 20 \<le> s \<and> s \<le> 2 ^ 20 \<and> 1 / 2 ^ 20 \<le> k \<and> k \<le> 2 ^ 20
      \<and> 1 / 2 ^ 20 \<le> t \<and> t \<le> 2 ^ 20 \<and> 1 / 2 ^ 20 \<le> sg \<and> sg \<le> 2 ^ 20
      \<and> \<bar>rate\<bar> \<le> 2 ^ 20 \<and> \<bar>rate * t\<bar> \<le> 64 \<and> k * exp (- rate * t) \<le> 2 ^ 20"
  have Phi: "Phi = std_normal_cdf"
    by (rule standard_normal_cdf_unique [OF assms(1)])
  show "\<exists>c p.
      bs_calculate_option_price binary64 Phi
        \<lparr>S = Fin s, K = Fin k, T = Fin t, r = Fin rate, sigma = Fin sg\<rparr>
        (PyStr ''Call Option'') = Inr (PyFloat (Fin c))
    \<and> bs_calculate_option_price binary64 Phi
        \<lparr>S = Fin s, K = Fin k, T = Fin t, r = Fin rate, sigma = Fin sg\<rparr>
        (PyStr ''Put Option'') = Inr (PyFloat (Fin p))
    \<and> \<bar>(c - p) - (s - k * exp (- rate * t))\<bar> \<le> 1 / 10 ^ 6"
    unfolding Phi using b by (intro rounded_parity) blast+
qed

theorem put_call_parity_witness:
  "is_standard_normal_cdf std_normal_cdf \<and> (0::real) < 100 \<and> (0::real) < 1
   \<and> (0::real) < 1 / 4
   \<and> (\<exists>c p.
         bs_calculate_option_price exact std_normal_cdf
           \<lparr>S = Fin 100, K = Fin 100, T = Fin 1, r = Fin (1 / 16), sigma = Fin (1 / 4)\<rparr>
           (PyStr ''Call Option'') = Inr (PyFloat (Fin c))
       \<and> bs_calculate_option_price exact std_normal_cdf
           \<lparr>S = Fin 100, K = Fin 100, T = Fin 1, r = Fin (1 / 16), sigma = Fin (1 / 4)\<rparr>
           (PyStr ''Put Option'') = Inr (PyFloat (Fin p))
       \<and> c - p = 100 - 100 * exp (- (1 / 16)))
   \<and> (1 / 2 ^ 20 \<le> (100::real) \<and> (100::real) \<le> 2 ^ 20 \<and> 1 / 2 ^ 20 \<le> (1::real)
      \<and> (1::real) \<le> 2 ^ 20 \<and> 1 / 2 ^ 20 \<le> (1 / 4 :: real) \<and> (1 / 4 :: real) \<le> 2 ^ 20
      \<and> \<bar>1 / 16 :: real\<bar> \<le> 2 ^ 20 \<and> \<bar>1 / 16 * 1 :: real\<bar> \<le> 64
      \<and> 100 * exp (- (1 / 16)) \<le> (2::real) ^ 20)
   \<and> (\<exists>c p.
         bs_calculate_option_price binary64 std_normal_cdf
           \<lparr>S = Fin 100, K = Fin 100, T = Fin 1, r = Fin (1 / 16), sigma = Fin (1 / 4)\<rparr>
           (PyStr ''Call Option'') = Inr (PyFloat (Fin c))
       \<and> bs_calculate_option_price binary64 std_normal_cdf
           \<lparr>S = Fin 100, K = Fin 100, T = Fin 1, r = Fin (1 / 16), sigma = Fin (1 / 4)\<rparr>
           (PyStr ''Put Option'') = Inr (PyFloat (Fin p))
       \<and> \<bar>(c - p) - (100 - 100 * exp (- (1 / 16)))\<bar> \<le> 1 / 10 ^ 6)"
proof -
  define x :: real where "x = exp (- (1 / 16))"
  have "x \<le> 1" by (simp add: x_def)
  moreover have "(100::real) \<le> 2 ^ 20" by simp
  ultimately have "100 * x \<le> 2 ^ 20" by linarith
  then have e: "100 * exp (- (1 / 16)) \<le> (2::real) ^ 20" by (simp only: x_def)
  show ?thesis
    using put_call_parity [of std_normal_cdf 100 100 1 "1 / 4" "1 / 16"]
      std_normal_cdf_is_standard e
    by simp
qed






section \<open>Numerical bounds\<close>

lemma sum_lessThan_2: "(\<Sum>i<2. f i) = f 0 + f 1" for f :: "nat \<Rightarrow> real"
  by (simp add: eval_nat_numeral)

lemma sum_lessThan_3: "(\<Sum>i<3. f i) = f 0 + f 1 + f 2" for f :: "nat \<Rightarrow> real"
  by (simp add: eval_nat_numeral)

lemma sum_lessThan_4: "(\<Sum>i<4. f i) = f 0 + f 1 + f 2 + f 3" for f :: "nat \<Rightarrow> real"
  by (simp add: eval_nat_numeral)

lemma sum_lessThan_5: "(\<Sum>i<5. f i) = f 0 + f 1 + f 2 + f 3 + f 4" for f :: "nat \<Rightarrow> real"
  by (simp add: eval_nat_numeral)

lemma sum_lessThan_6: "(\<Sum>i<6. f i) = f 0 + f 1 + f 2 + f 3 + f 4 + f 5"
  for f :: "nat \<Rightarrow> real"
  by (simp add: eval_nat_numeral)

subsection \<open>Bounds of \<open>pi\<close>\<close>

lemma arctan_term_decreasing:
  fixes x :: real
  assumes "0 \<le> x" and "x \<le> 1"
  shows "1 / real (Suc n * 2 + 1) * x ^ (Suc n * 2 + 1) \<le> 1 / real (n * 2 + 1) * x ^ (n * 2 + 1)"
proof (rule mult_mono)
  show "1 / real (Suc n * 2 + 1) \<le> 1 / real (n * 2 + 1)"
    by (simp add: field_simps)
  show "x ^ (Suc n * 2 + 1) \<le> x ^ (n * 2 + 1)"
    using assms by (intro power_decreasing) simp_all
qed (use assms in simp_all)

lemma arctan_bounds:
  fixes x :: real
  assumes "0 \<le> x" and "x \<le> 1"
  shows "(\<Sum>i<2 * n. (- 1) ^ i * (1 / real (i * 2 + 1) * x ^ (i * 2 + 1))) \<le> arctan x"
    and "arctan x \<le> (\<Sum>i<2 * n + 1. (- 1) ^ i * (1 / real (i * 2 + 1) * x ^ (i * 2 + 1)))"
proof -
  let ?a = "\<lambda>n. 1 / real (n * 2 + 1) * x ^ (n * 2 + 1)"
  have x: "\<bar>x\<bar> \<le> 1" using assms by simp
  have z: "?a \<longlonglongrightarrow> 0" by (rule zeroseq_arctan_series [OF x])
  have p: "0 \<le> ?a m" for m using assms by simp
  have d: "?a (Suc m) \<le> ?a m" for m by (rule arctan_term_decreasing [OF assms])
  have s: "arctan x = (\<Sum>k. (- 1) ^ k * ?a k)" by (rule arctan_series [OF x])
  show "(\<Sum>i<2 * n. (- 1) ^ i * ?a i) \<le> arctan x"
    unfolding s by (rule summable_Leibniz'(2) [OF z p d])
  show "arctan x \<le> (\<Sum>i<2 * n + 1. (- 1) ^ i * ?a i)"
    unfolding s by (rule summable_Leibniz'(4) [OF z p d])
qed

lemma pi_bounds: "3.1415926 < pi" "pi < 3.1415927"
proof -
  define A where "A = arctan (1 / 5)"
  define B where "B = arctan (1 / 239)"
  define bu :: real where "bu = 1 / 239 - 1 / 3 * (1 / 239) ^ 3 + 1 / 5 * (1 / 239) ^ 5"
  define bl :: real where "bl = 1 / 239 - 1 / 3 * (1 / 239) ^ 3"
  define al :: real where
    "al = 1 / 5 - (1 / 5) ^ 3 / 3 + (1 / 5) ^ 5 / 5 - (1 / 5) ^ 7 / 7 + (1 / 5) ^ 9 / 9
       - (1 / 5) ^ 11 / 11"
  define au :: real where
    "au = 1 / 5 - (1 / 5) ^ 3 / 3 + (1 / 5) ^ 5 / 5 - (1 / 5) ^ 7 / 7 + (1 / 5) ^ 9 / 9"
  have l5: "al \<le> A"
    using arctan_bounds(1) [of "1 / 5" 3] unfolding A_def al_def
    by (simp add: sum_lessThan_6 power_divide)
  have u5: "A \<le> au"
    using arctan_bounds(2) [of "1 / 5" 2] unfolding A_def au_def
    by (simp add: sum_lessThan_5 power_divide)
  have l239: "bl \<le> B"
    using arctan_bounds(1) [of "1 / 239" 1] unfolding B_def bl_def
    by (simp add: sum_lessThan_2 power_divide)
  have u239: "B \<le> bu"
    using arctan_bounds(2) [of "1 / 239" 1] unfolding B_def bu_def
    by (simp add: sum_lessThan_3 power_divide)
  have p: "pi = 16 * A - 4 * B"
    using machin unfolding A_def B_def by simp
  have n1: "3.1415926 < 16 * al - 4 * bu"
    unfolding al_def bu_def by (simp add: power_divide)
  have n2: "16 * au - 4 * bl < 3.1415927"
    unfolding au_def bl_def by (simp add: power_divide)
  have "16 * al - 4 * bu \<le> 16 * A - 4 * B" using l5 u239 by simp
  then show "3.1415926 < pi" using n1 unfolding p by (rule less_le_trans [rotated])
  have "16 * A - 4 * B \<le> 16 * au - 4 * bl" using u5 l239 by simp
  then show "pi < 3.1415927" using n2 unfolding p by (rule le_less_trans)
qed

lemma sqrt_two_pi_bounds: "2.506628 < sqrt (2 * pi)" "sqrt (2 * pi) < 2.506629"
proof -
  have "(2.506628::real)\<^sup>2 < 2 * pi"
    using pi_bounds(1) by (simp add: power2_eq_square)
  then have "sqrt ((2.506628::real)\<^sup>2) < sqrt (2 * pi)"
    by (simp only: real_sqrt_less_iff)
  then show "2.506628 < sqrt (2 * pi)" by simp
  have "2 * pi < (2.506629::real)\<^sup>2"
    using pi_bounds(2) by (simp add: power2_eq_square)
  then have "sqrt (2 * pi) < sqrt ((2.506629::real)\<^sup>2)"
    by (simp only: real_sqrt_less_iff)
  then show "sqrt (2 * pi) < 2.506629" by simp
qed

subsection \<open>Bounds of the exponential function\<close>

lemma exp_minus_bounds:
  fixes x :: real
  assumes "0 \<le> x" and "x \<le> 1"
  shows "(\<Sum>i<2 * n. (- 1) ^ i * (x ^ i / fact i)) \<le> exp (- x)"
    and "exp (- x) \<le> (\<Sum>i<2 * n + 1. (- 1) ^ i * (x ^ i / fact i))"
proof -
  let ?a = "\<lambda>n. x ^ n / fact n"
  have "summable (\<lambda>n. inverse (fact n) * x ^ n)" by (rule summable_exp)
  then have "(\<lambda>n. inverse (fact n) * x ^ n) \<longlonglongrightarrow> 0" by (rule summable_LIMSEQ_zero)
  then have z: "?a \<longlonglongrightarrow> 0" by (simp add: field_simps)
  have p: "0 \<le> ?a m" for m using assms by simp
  have d: "?a (Suc m) \<le> ?a m" for m
  proof -
    have "x ^ Suc m \<le> x ^ m" using assms by (intro power_decreasing) simp_all
    moreover have "(fact m :: real) \<le> fact (Suc m)" by (rule fact_mono) simp
    ultimately show ?thesis
      using assms by (intro frac_le) simp_all
  qed
  have "(\<lambda>n. (- x) ^ n /\<^sub>R fact n) sums exp (- x)" by (rule exp_converges)
  moreover have "(- x) ^ m /\<^sub>R fact m = (- 1) ^ m * ?a m" for m
    by (simp add: power_minus [of x] field_simps)
  ultimately have "(\<lambda>n. (- 1) ^ n * ?a n) sums exp (- x)" by simp
  then have s: "exp (- x) = (\<Sum>k. (- 1) ^ k * ?a k)" by (simp add: sums_iff)
  show "(\<Sum>i<2 * n. (- 1) ^ i * ?a i) \<le> exp (- x)"
    unfolding s by (rule summable_Leibniz'(2) [OF z p d])
  show "exp (- x) \<le> (\<Sum>i<2 * n + 1. (- 1) ^ i * ?a i)"
    unfolding s by (rule summable_Leibniz'(4) [OF z p d])
qed

subsection \<open>Bounds of the distribution function\<close>

lemma gauss_primitive_bounds:
  fixes x :: real
  assumes "0 \<le> x" and "x \<le> 1"
  shows "(\<Sum>i<2 * n. (- 1) ^ i * (x ^ (2 * i + 1) / (2 ^ i * fact i * real (2 * i + 1))))
           \<le> gauss_primitive x"
    and "gauss_primitive x
           \<le> (\<Sum>i<2 * n + 1. (- 1) ^ i * (x ^ (2 * i + 1) / (2 ^ i * fact i * real (2 * i + 1))))"
proof -
  let ?a = "\<lambda>n. x ^ (2 * n + 1) / (2 ^ n * fact n * real (2 * n + 1))"
  have "(\<lambda>n. (- 1) ^ n * x ^ (2 * n + 1) / (2 ^ n * fact n * real (2 * n + 1))) \<longlonglongrightarrow> 0"
    by (rule summable_LIMSEQ_zero) (rule gauss_term_summable)
  then have "(\<lambda>n. \<bar>(- 1) ^ n * x ^ (2 * n + 1) / (2 ^ n * fact n * real (2 * n + 1))\<bar>)
      \<longlonglongrightarrow> 0"
    by (simp only: tendsto_rabs_zero_iff)
  moreover have "\<bar>(- 1) ^ m * x ^ (2 * m + 1) / (2 ^ m * fact m * real (2 * m + 1))\<bar> = ?a m"
    for m
    using assms by (simp add: abs_mult power_abs)
  ultimately have z: "?a \<longlonglongrightarrow> 0" by (simp only:)
  have p: "0 \<le> ?a m" for m using assms by simp
  have d: "?a (Suc m) \<le> ?a m" for m
  proof (rule frac_le)
    show "x ^ (2 * Suc m + 1) \<le> x ^ (2 * m + 1)"
      using assms by (intro power_decreasing) simp_all
    have "(2::real) ^ m \<le> 2 ^ Suc m" by simp
    moreover have "(fact m :: real) \<le> fact (Suc m)" by (rule fact_mono) simp
    moreover have "real (2 * m + 1) \<le> real (2 * Suc m + 1)" by simp
    ultimately show "2 ^ m * fact m * real (2 * m + 1)
        \<le> 2 ^ Suc m * fact (Suc m) * real (2 * Suc m + 1)"
      by (intro mult_mono) simp_all
  qed (use assms in simp_all)
  have s: "gauss_primitive x = (\<Sum>k. (- 1) ^ k * ?a k)"
    by (simp add: gauss_primitive_def)
  show "(\<Sum>i<2 * n. (- 1) ^ i * ?a i) \<le> gauss_primitive x"
    unfolding s by (rule summable_Leibniz'(2) [OF z p d])
  show "gauss_primitive x \<le> (\<Sum>i<2 * n + 1. (- 1) ^ i * ?a i)"
    unfolding s by (rule summable_Leibniz'(4) [OF z p d])
qed

subsection \<open>Propagation of bounds through rounded operations\<close>

lemma binary64_between:
  assumes "lo \<le> x" and "x \<le> hi" and "- 128 \<le> lo" and "hi \<le> 128"
  obtains y where "binary64 x = Fin y" and "lo - 1 / 2 ^ 45 \<le> y" and "y \<le> hi + 1 / 2 ^ 45"
proof -
  have a: "\<bar>x\<bar> \<le> 128" using assms by (simp add: abs_le_iff)
  have "(128::real) \<le> 2 ^ 1023" by simp
  then have "\<bar>x\<bar> \<le> 2 ^ 1023" using a by (rule order_trans [rotated])
  then have f: "binary64 x = Fin (round_double x)" by (rule binary64_finite)
  have "\<bar>round_double x - x\<bar> \<le> \<bar>x\<bar> / 2 ^ 53 + 1 / 2 ^ 1075"
    by (rule round_double_relative_error)
  also have "\<dots> \<le> 128 / 2 ^ 53 + 1 / 2 ^ 1075"
    using a by (intro add_mono divide_right_mono) simp_all
  also have "\<dots> \<le> 1 / 2 ^ 45" by simp
  finally have e: "\<bar>round_double x - x\<bar> \<le> 1 / 2 ^ 45" .
  define eps :: real where "eps = 1 / 2 ^ 45"
  have "round_double x - x \<le> eps" "- (round_double x - x) \<le> eps"
    unfolding eps_def by (rule abs_le_D1 [OF e], rule abs_le_D2 [OF e])
  then have "lo - eps \<le> round_double x" "round_double x \<le> hi + eps"
    using assms(1,2) by linarith+
  then show ?thesis using f that unfolding eps_def by blast
qed

lemma std_normal_cdf_between:
  assumes "xl \<le> x" and "x \<le> xh" and "0 \<le> xl" and "xh \<le> 1"
    and "gl \<le> (\<Sum>i<4. (- 1) ^ i * (xl ^ (2 * i + 1) / (2 ^ i * fact i * real (2 * i + 1))))"
    and "(\<Sum>i<5. (- 1) ^ i * (xh ^ (2 * i + 1) / (2 ^ i * fact i * real (2 * i + 1)))) \<le> gh"
    and "0 \<le> gl"
  shows "1 / 2 + gl / 2.506629 \<le> std_normal_cdf x"
    and "std_normal_cdf x \<le> 1 / 2 + gh / 2.506628"
proof -
  have "gl \<le> gauss_primitive xl"
    using gauss_primitive_bounds(1) [of xl 2] assms by simp
  also have "\<dots> \<le> gauss_primitive x" by (rule gauss_primitive_mono [OF assms(1)])
  finally have l: "gl \<le> gauss_primitive x" .
  have "gauss_primitive x \<le> gauss_primitive xh" by (rule gauss_primitive_mono [OF assms(2)])
  also have "\<dots> \<le> gh"
    using gauss_primitive_bounds(2) [of xh 2] assms by simp
  finally have h: "gauss_primitive x \<le> gh" .
  have s: "2.506628 < sqrt (2 * pi)" "sqrt (2 * pi) < 2.506629"
    by (rule sqrt_two_pi_bounds)+
  have "gl / 2.506629 \<le> gl / sqrt (2 * pi)"
    using s assms(7) by (intro divide_left_mono) simp_all
  also have "\<dots> \<le> gauss_primitive x / sqrt (2 * pi)"
    using l s by (intro divide_right_mono) simp_all
  finally show "1 / 2 + gl / 2.506629 \<le> std_normal_cdf x"
    by (simp add: std_normal_cdf_def)
  have g0: "0 \<le> gauss_primitive x" using l assms(7) by simp
  have "gauss_primitive x / sqrt (2 * pi) \<le> gauss_primitive x / 2.506628"
    using s g0 by (intro divide_left_mono) simp_all
  also have "\<dots> \<le> gh / 2.506628"
    using h by (intro divide_right_mono) simp_all
  finally show "std_normal_cdf x \<le> 1 / 2 + gh / 2.506628"
    by (simp add: std_normal_cdf_def)
qed

lemma std_normal_cdf_at_d1:
  assumes "0.35 \<le> x" and "x \<le> 0.3500001"
  shows "0.636830 \<le> std_normal_cdf x" and "std_normal_cdf x \<le> 0.636832"
proof -
  define gl :: real where "gl = 0.3429835"
  define gh :: real where "gh = 0.3429837"
  have 1: "gl \<le> (\<Sum>i<4. (- 1) ^ i * ((0.35::real) ^ (2 * i + 1) / (2 ^ i * fact i * real (2 * i + 1))))"
    unfolding gl_def by (simp add: sum_lessThan_4 power_divide fact_numeral)
  have 2: "(\<Sum>i<5. (- 1) ^ i * ((0.3500001::real) ^ (2 * i + 1) / (2 ^ i * fact i * real (2 * i + 1)))) \<le> gh"
    unfolding gh_def by (simp add: sum_lessThan_5 power_divide fact_numeral)
  have 3: "0 \<le> gl" by (simp add: gl_def)
  note b = std_normal_cdf_between [OF assms _ _ 1 2 3]
  have "0.636830 \<le> 1 / 2 + gl / 2.506629" by (simp add: gl_def)
  also have "\<dots> \<le> std_normal_cdf x" by (rule b(1)) simp_all
  finally show "0.636830 \<le> std_normal_cdf x" .
  have "std_normal_cdf x \<le> 1 / 2 + gh / 2.506628" by (rule b(2)) simp_all
  also have "\<dots> \<le> 0.636832" by (simp add: gh_def)
  finally show "std_normal_cdf x \<le> 0.636832" .
qed

lemma std_normal_cdf_at_d2:
  assumes "0.1499999 \<le> x" and "x \<le> 0.15"
  shows "0.559617 \<le> std_normal_cdf x" and "std_normal_cdf x \<le> 0.559619"
proof -
  define gl :: real where "gl = 0.1494392"
  define gh :: real where "gh = 0.1494394"
  have 1: "gl \<le> (\<Sum>i<4. (- 1) ^ i * ((0.1499999::real) ^ (2 * i + 1) / (2 ^ i * fact i * real (2 * i + 1))))"
    unfolding gl_def by (simp add: sum_lessThan_4 power_divide fact_numeral)
  have 2: "(\<Sum>i<5. (- 1) ^ i * ((0.15::real) ^ (2 * i + 1) / (2 ^ i * fact i * real (2 * i + 1)))) \<le> gh"
    unfolding gh_def by (simp add: sum_lessThan_5 power_divide fact_numeral)
  have 3: "0 \<le> gl" by (simp add: gl_def)
  note b = std_normal_cdf_between [OF assms _ _ 1 2 3]
  have "0.559617 \<le> 1 / 2 + gl / 2.506629" by (simp add: gl_def)
  also have "\<dots> \<le> std_normal_cdf x" by (rule b(1)) simp_all
  finally show "0.559617 \<le> std_normal_cdf x" .
  have "std_normal_cdf x \<le> 1 / 2 + gh / 2.506628" by (rule b(2)) simp_all
  also have "\<dots> \<le> 0.559619" by (simp add: gh_def)
  finally show "std_normal_cdf x \<le> 0.559619" .
qed

lemma exp_at_rate:
  fixes x :: real
  assumes "0.05 \<le> x" and "x \<le> 0.0500001"
  shows "0.951229 \<le> exp (- x)" and "exp (- x) \<le> 0.951230"
proof -
  have "0.951229 \<le> (\<Sum>i<4. (- 1) ^ i * ((0.0500001::real) ^ i / fact i))"
    by (simp add: sum_lessThan_4 power_divide fact_numeral)
  also have "\<dots> \<le> exp (- 0.0500001)"
    using exp_minus_bounds(1) [of "0.0500001" 2] by simp
  also have "\<dots> \<le> exp (- x)" using assms by simp
  finally show "0.951229 \<le> exp (- x)" .
  have "exp (- x) \<le> exp (- 0.05)" using assms by simp
  also have "\<dots> \<le> (\<Sum>i<5. (- 1) ^ i * ((0.05::real) ^ i / fact i))"
    using exp_minus_bounds(2) [of "0.05" 2] by simp
  also have "\<dots> \<le> 0.951230"
    by (simp add: sum_lessThan_5 power_divide fact_numeral)
  finally show "exp (- x) \<le> 0.951230" .
qed


lemma binary64_within:
  assumes "xl \<le> x" and "x \<le> xh"
    and "lo \<le> xl - 1 / 2 ^ 45" and "xh + 1 / 2 ^ 45 \<le> hi" and "- 128 \<le> xl" and "xh \<le> 128"
  obtains y where "binary64 x = Fin y" and "lo \<le> y" and "y \<le> hi"
proof -
  obtain y where y: "binary64 x = Fin y" "xl - 1 / 2 ^ 45 \<le> y" "y \<le> xh + 1 / 2 ^ 45"
    using binary64_between [OF assms(1,2,5,6)] by blast
  have "lo \<le> y" using y(2) assms(3) by (rule order_trans [rotated])
  moreover have "y \<le> hi" using y(3) assms(4) by (rule order_trans)
  ultimately show ?thesis using y(1) that by blast
qed

lemma discounted_strike_bounds:
  assumes "0.951229 \<le> E0" and "E0 \<le> 0.951230"
  obtains ke where "xmul binary64 (Fin 100) (binary64 E0) = Fin ke"
    and "95.1227 \<le> ke" and "ke \<le> 95.1232"
proof -
  obtain e where e: "binary64 E0 = Fin e" "0.951228 \<le> e" "e \<le> 0.951231"
    by (rule binary64_within [OF assms, where lo = "0.951228" and hi = "0.951231"]) simp_all
  have "95.1228 \<le> 100 * e" "100 * e \<le> 95.1231" using e(2,3) by simp_all
  then obtain ke where "binary64 (100 * e) = Fin ke" "95.1227 \<le> ke" "ke \<le> 95.1232"
    by (rule binary64_within [where lo = "95.1227" and hi = "95.1232"]) simp_all
  then show ?thesis using e(1) that by simp
qed

lemma call_value_bounds:
  assumes "0.636830 \<le> P1" and "P1 \<le> 0.636832"
    and "0.559617 \<le> P2" and "P2 \<le> 0.559619"
    and "0.951229 \<le> E0" and "E0 \<le> 0.951230"
  shows "\<exists>c. xsub binary64 (xmul binary64 (Fin 100) (binary64 P1))
               (xmul binary64 (xmul binary64 (Fin 100) (binary64 E0)) (binary64 P2)) = Fin c
           \<and> \<bar>c - 10.4506\<bar> \<le> 1 / 1000"
proof -
  obtain ke where ke: "xmul binary64 (Fin 100) (binary64 E0) = Fin ke"
      "95.1227 \<le> ke" "ke \<le> 95.1232"
    using discounted_strike_bounds [OF assms(5,6)] by blast
  obtain a1 where a1: "binary64 P1 = Fin a1" "0.636829 \<le> a1" "a1 \<le> 0.636833"
    by (rule binary64_within [OF assms(1,2), where lo = "0.636829" and hi = "0.636833"]) simp_all
  obtain a2 where a2: "binary64 P2 = Fin a2" "0.559616 \<le> a2" "a2 \<le> 0.559620"
    by (rule binary64_within [OF assms(3,4), where lo = "0.559616" and hi = "0.559620"]) simp_all
  have "63.6829 \<le> 100 * a1" "100 * a1 \<le> 63.6833" using a1(2,3) by simp_all
  then obtain A where A: "binary64 (100 * a1) = Fin A" "63.6828 \<le> A" "A \<le> 63.6834"
    by (rule binary64_within [where lo = "63.6828" and hi = "63.6834"]) simp_all
  have "95.1227 * 0.559616 \<le> ke * a2"
    using ke(2) a2(2) by (intro mult_mono) simp_all
  moreover have "ke * a2 \<le> 95.1232 * 0.559620"
    using ke(2,3) a2(2,3) by (intro mult_mono) simp_all
  ultimately obtain B where B: "binary64 (ke * a2) = Fin B" "53.2321 \<le> B" "B \<le> 53.2329"
    by (rule binary64_within [where lo = "53.2321" and hi = "53.2329"]) simp_all
  have "63.6828 - 53.2329 \<le> A - B" "A - B \<le> 63.6834 - 53.2321"
    using A(2,3) B(2,3) by simp_all
  then obtain c where c: "binary64 (A - B) = Fin c" "10.4497 \<le> c" "c \<le> 10.4515"
    by (rule binary64_within [where lo = "10.4497" and hi = "10.4515"]) simp_all
  have "c - 10.4506 \<le> 1 / 1000" "- (c - 10.4506) \<le> 1 / 1000"
    using c(2,3) by simp_all
  then have "\<bar>c - 10.4506\<bar> \<le> 1 / 1000" by (rule abs_leI)
  moreover have "xsub binary64 (xmul binary64 (Fin 100) (binary64 P1))
      (xmul binary64 (xmul binary64 (Fin 100) (binary64 E0)) (binary64 P2)) = Fin c"
    by (simp add: ke(1) a1(1) a2(1) A(1) B(1) c(1) xsub_def)
  ultimately show ?thesis by blast
qed

lemma put_value_bounds:
  assumes "0.363168 \<le> Q1" and "Q1 \<le> 0.363170"
    and "0.440381 \<le> Q2" and "Q2 \<le> 0.440383"
    and "0.951229 \<le> E0" and "E0 \<le> 0.951230"
  shows "\<exists>p. xsub binary64 (xmul binary64 (xmul binary64 (Fin 100) (binary64 E0)) (binary64 Q2))
               (xmul binary64 (Fin 100) (binary64 Q1)) = Fin p
           \<and> \<bar>p - 5.5735\<bar> \<le> 1 / 1000"
proof -
  obtain ke where ke: "xmul binary64 (Fin 100) (binary64 E0) = Fin ke"
      "95.1227 \<le> ke" "ke \<le> 95.1232"
    using discounted_strike_bounds [OF assms(5,6)] by blast
  obtain b1 where b1: "binary64 Q1 = Fin b1" "0.363167 \<le> b1" "b1 \<le> 0.363171"
    by (rule binary64_within [OF assms(1,2), where lo = "0.363167" and hi = "0.363171"]) simp_all
  obtain b2 where b2: "binary64 Q2 = Fin b2" "0.440380 \<le> b2" "b2 \<le> 0.440384"
    by (rule binary64_within [OF assms(3,4), where lo = "0.440380" and hi = "0.440384"]) simp_all
  have "36.3167 \<le> 100 * b1" "100 * b1 \<le> 36.3171" using b1(2,3) by simp_all
  then obtain A where A: "binary64 (100 * b1) = Fin A" "36.3166 \<le> A" "A \<le> 36.3172"
    by (rule binary64_within [where lo = "36.3166" and hi = "36.3172"]) simp_all
  have "95.1227 * 0.440380 \<le> ke * b2"
    using ke(2) b2(2) by (intro mult_mono) simp_all
  moreover have "ke * b2 \<le> 95.1232 * 0.440384"
    using ke(2,3) b2(2,3) by (intro mult_mono) simp_all
  ultimately obtain B where B: "binary64 (ke * b2) = Fin B" "41.8901 \<le> B" "B \<le> 41.8908"
    by (rule binary64_within [where lo = "41.8901" and hi = "41.8908"]) simp_all
  have "41.8901 - 36.3172 \<le> B - A" "B - A \<le> 41.8908 - 36.3166"
    using A(2,3) B(2,3) by simp_all
  then obtain p where p: "binary64 (B - A) = Fin p" "5.5728 \<le> p" "p \<le> 5.5743"
    by (rule binary64_within [where lo = "5.5728" and hi = "5.5743"]) simp_all
  have "p - 5.5735 \<le> 1 / 1000" "- (p - 5.5735) \<le> 1 / 1000"
    using p(2,3) by simp_all
  then have "\<bar>p - 5.5735\<bar> \<le> 1 / 1000" by (rule abs_leI)
  moreover have "xsub binary64
      (xmul binary64 (xmul binary64 (Fin 100) (binary64 E0)) (binary64 Q2))
      (xmul binary64 (Fin 100) (binary64 Q1)) = Fin p"
    by (simp add: ke(1) b1(1) b2(1) A(1) B(1) p(1) xsub_def)
  ultimately show ?thesis by blast
qed


section \<open>The textbook scenario in double precision\<close>

lemma binary64_volatility:
  "binary64 (2 / 10) = Fin (3602879701896397 / 2 ^ 54)"
  by (rule binary64_eqI [where e = "- 3"]) (simp_all add: round_half_even_def max_double_def)

lemma binary64_volatility_fixed:
  "binary64 (3602879701896397 / 2 ^ 54) = Fin (3602879701896397 / 2 ^ 54)"
  by (rule binary64_eqI [where e = "- 3"]) (simp_all add: round_half_even_def max_double_def)

lemma binary64_volatility_square:
  "binary64 (3602879701896397 / 2 ^ 54 * (3602879701896397 / 2 ^ 54)) = Fin (1441151880758559 / 2 ^ 55)"
  by (rule binary64_eqI [where e = "- 5"]) (simp_all add: round_half_even_def max_double_def)

lemma binary64_half_square:
  "binary64 (1 / 2 * (1441151880758559 / 2 ^ 55)) = Fin (1441151880758559 / 2 ^ 56)"
  by (rule binary64_eqI [where e = "- 6"]) (simp_all add: round_half_even_def max_double_def)

lemma binary64_drift_plus:
  "binary64 (3602879701896397 / 2 ^ 56 + 1441151880758559 / 2 ^ 56) = Fin (1261007895663739 / 2 ^ 54)"
  by (rule binary64_eqI [where e = "- 4"]) (simp_all add: round_half_even_def max_double_def)

lemma binary64_drift_plus_fixed:
  "binary64 (1261007895663739 / 2 ^ 54) = Fin (1261007895663739 / 2 ^ 54)"
  by (rule binary64_eqI [where e = "- 4"]) (simp_all add: round_half_even_def max_double_def)

lemma binary64_drift_minus:
  "binary64 (3602879701896397 / 2 ^ 56 - 1441151880758559 / 2 ^ 56) = Fin (1080863910568919 / 2 ^ 55)"
  by (rule binary64_eqI [where e = "- 6"]) (simp_all add: round_half_even_def max_double_def)

lemma binary64_drift_minus_fixed:
  "binary64 (1080863910568919 / 2 ^ 55) = Fin (1080863910568919 / 2 ^ 55)"
  by (rule binary64_eqI [where e = "- 6"]) (simp_all add: round_half_even_def max_double_def)

lemma binary64_scenario_d1:
  "binary64 (1261007895663739 / 2 ^ 54 / (3602879701896397 / 2 ^ 54)) = Fin (6305039478318695 / 2 ^ 54)"
  by (rule binary64_eqI [where e = "- 2"]) (simp_all add: round_half_even_def max_double_def)

lemma binary64_scenario_d2:
  "binary64 (1080863910568919 / 2 ^ 55 / (3602879701896397 / 2 ^ 54)) = Fin (5404319552844595 / 2 ^ 55)"
  by (rule binary64_eqI [where e = "- 3"]) (simp_all add: round_half_even_def max_double_def)

lemma binary64_minus_rate:
  "binary64 (- (3602879701896397 / 2 ^ 56)) = Fin (- (3602879701896397 / 2 ^ 56))"
  by (rule binary64_eqI [where e = "- 5"]) (simp_all add: round_half_even_def max_double_def)

lemma scenario_d1:
  "d1 binary64
     \<lparr>S = Fin 100, K = Fin 100, T = Fin 1, r = Fin (3602879701896397 / 2 ^ 56),
        sigma = Fin (3602879701896397 / 2 ^ 54)\<rparr> =
   Inr (Fin (6305039478318695 / 2 ^ 54))"
  using binary64_volatility_fixed binary64_volatility_square binary64_half_square
    binary64_drift_plus binary64_drift_plus_fixed binary64_scenario_d1
  by (simp add: d1_def py_truediv_def binary64_0 binary64_1)

lemma scenario_d2:
  "d2 binary64
     \<lparr>S = Fin 100, K = Fin 100, T = Fin 1, r = Fin (3602879701896397 / 2 ^ 56),
        sigma = Fin (3602879701896397 / 2 ^ 54)\<rparr> =
   Inr (Fin (5404319552844595 / 2 ^ 55))"
  using binary64_volatility_fixed binary64_volatility_square binary64_half_square
    binary64_drift_minus binary64_drift_minus_fixed binary64_scenario_d2
  by (simp add: d2_def py_truediv_def xsub_def binary64_0 binary64_1)

lemma scenario_discount:
  "np_exp binary64 (xmul binary64 (xneg (Fin (3602879701896397 / 2 ^ 56))) (Fin 1)) =
   binary64 (exp (- (3602879701896397 / 2 ^ 56)))"
  using binary64_minus_rate by simp

lemma scenario_call:
  "calculate_call_option_price binary64 Phi
     \<lparr>S = Fin 100, K = Fin 100, T = Fin 1, r = Fin (3602879701896397 / 2 ^ 56),
        sigma = Fin (3602879701896397 / 2 ^ 54)\<rparr> =
   Inr (PyFloat
     (xsub binary64
        (xmul binary64 (Fin 100) (binary64 (Phi (6305039478318695 / 2 ^ 54))))
        (xmul binary64 (xmul binary64 (Fin 100) (binary64 (exp (- (3602879701896397 / 2 ^ 56)))))
           (binary64 (Phi (5404319552844595 / 2 ^ 55))))))"
  unfolding calculate_call_option_price_def scenario_d1 scenario_d2
  using scenario_discount by simp

lemma scenario_put:
  "calculate_put_option_price binary64 Phi
     \<lparr>S = Fin 100, K = Fin 100, T = Fin 1, r = Fin (3602879701896397 / 2 ^ 56),
        sigma = Fin (3602879701896397 / 2 ^ 54)\<rparr> =
   Inr (PyFloat
     (xsub binary64
        (xmul binary64 (xmul binary64 (Fin 100) (binary64 (exp (- (3602879701896397 / 2 ^ 56)))))
           (binary64 (Phi (- (5404319552844595 / 2 ^ 55)))))
        (xmul binary64 (Fin 100) (binary64 (Phi (- (6305039478318695 / 2 ^ 54)))))))"
  unfolding calculate_put_option_price_def scenario_d1 scenario_d2
  using scenario_discount by simp

text \<open>
  C5. The model constructed from \<open>S = 100\<close>, \<open>K = 100\<close>, \<open>days_to_maturity = 365\<close> and
  the doubles nearest to \<open>r = 0.05\<close> and \<open>sigma = 0.2\<close> prices, in double precision, the
  call within \<open>1e-3\<close> of \<open>10.4506\<close> and the put within \<open>1e-3\<close> of \<open>5.5735\<close>.
\<close>

theorem textbook_scenario_prices:
  assumes "is_standard_normal_cdf Phi"
  shows "binary64 (5 / 100) = Fin (3602879701896397 / 2 ^ 56)
       \<and> binary64 (2 / 10) = Fin (3602879701896397 / 2 ^ 54)
       \<and> init binary64 (Fin 100) (Fin 100) (Fin 365) (Fin (3602879701896397 / 2 ^ 56))
           (Fin (3602879701896397 / 2 ^ 54)) =
         Inr \<lparr>S = Fin 100, K = Fin 100, T = Fin 1, r = Fin (3602879701896397 / 2 ^ 56),
        sigma = Fin (3602879701896397 / 2 ^ 54)\<rparr>
       \<and> (\<exists>c p.
             bs_calculate_option_price binary64 Phi
               \<lparr>S = Fin 100, K = Fin 100, T = Fin 1, r = Fin (3602879701896397 / 2 ^ 56),
        sigma = Fin (3602879701896397 / 2 ^ 54)\<rparr>
               (PyStr ''Call Option'') = Inr (PyFloat (Fin c))
           \<and> \<bar>c - 10.4506\<bar> \<le> 1 / 1000
           \<and> bs_calculate_option_price binary64 Phi
               \<lparr>S = Fin 100, K = Fin 100, T = Fin 1, r = Fin (3602879701896397 / 2 ^ 56),
        sigma = Fin (3602879701896397 / 2 ^ 54)\<rparr>
               (PyStr ''Put Option'') = Inr (PyFloat (Fin p))
           \<and> \<bar>p - 5.5735\<bar> \<le> 1 / 1000)"
proof -
  have Phi: "Phi = std_normal_cdf"
    by (rule standard_normal_cdf_unique [OF assms])
  define x1 :: real where "x1 = 6305039478318695 / 2 ^ 54"
  define x2 :: real where "x2 = 5404319552844595 / 2 ^ 55"
  define r0 :: real where "r0 = 3602879701896397 / 2 ^ 56"
  have b1: "0.35 \<le> x1" "x1 \<le> 0.3500001" by (simp_all add: x1_def)
  have b2: "0.1499999 \<le> x2" "x2 \<le> 0.15" by (simp_all add: x2_def)
  have b0: "0.05 \<le> r0" "r0 \<le> 0.0500001" by (simp_all add: r0_def)
  note P1 = std_normal_cdf_at_d1 [OF b1]
  note P2 = std_normal_cdf_at_d2 [OF b2]
  note E0 = exp_at_rate [OF b0]
  have Q1: "0.363168 \<le> std_normal_cdf (- x1)" "std_normal_cdf (- x1) \<le> 0.363170"
    using P1 by (simp_all add: std_normal_cdf_minus)
  have Q2: "0.440381 \<le> std_normal_cdf (- x2)" "std_normal_cdf (- x2) \<le> 0.440383"
    using P2 by (simp_all add: std_normal_cdf_minus)
  obtain c where c:
    "xsub binary64 (xmul binary64 (Fin 100) (binary64 (std_normal_cdf x1)))
       (xmul binary64 (xmul binary64 (Fin 100) (binary64 (exp (- r0))))
          (binary64 (std_normal_cdf x2))) = Fin c"
    "\<bar>c - 10.4506\<bar> \<le> 1 / 1000"
    using call_value_bounds [OF P1 P2 E0] by blast
  obtain p where p:
    "xsub binary64
       (xmul binary64 (xmul binary64 (Fin 100) (binary64 (exp (- r0))))
          (binary64 (std_normal_cdf (- x2))))
       (xmul binary64 (Fin 100) (binary64 (std_normal_cdf (- x1)))) = Fin p"
    "\<bar>p - 5.5735\<bar> \<le> 1 / 1000"
    using put_value_bounds [OF Q1 Q2 E0] by blast
  have 1: "bs_calculate_option_price binary64 Phi
       \<lparr>S = Fin 100, K = Fin 100, T = Fin 1, r = Fin (3602879701896397 / 2 ^ 56),
        sigma = Fin (3602879701896397 / 2 ^ 54)\<rparr>
       (PyStr ''Call Option'') = Inr (PyFloat (Fin c))"
    unfolding bs_entry_call scenario_call Phi
    using c(1) unfolding x1_def x2_def r0_def by (simp only:)
  have 2: "bs_calculate_option_price binary64 Phi
       \<lparr>S = Fin 100, K = Fin 100, T = Fin 1, r = Fin (3602879701896397 / 2 ^ 56),
        sigma = Fin (3602879701896397 / 2 ^ 54)\<rparr>
       (PyStr ''Put Option'') = Inr (PyFloat (Fin p))"
    unfolding bs_entry_put scenario_put Phi
    using p(1) unfolding x1_def x2_def r0_def by (simp only:)
  have 3: "init binary64 (Fin 100) (Fin 100) (Fin 365) (Fin (3602879701896397 / 2 ^ 56))
           (Fin (3602879701896397 / 2 ^ 54)) =
         Inr \<lparr>S = Fin 100, K = Fin 100, T = Fin 1, r = Fin (3602879701896397 / 2 ^ 56),
        sigma = Fin (3602879701896397 / 2 ^ 54)\<rparr>"
    by (simp add: init_def py_truediv_def binary64_1)
  show ?thesis
    using binary64_rate binary64_volatility 1 2 3 c(2) p(2) by blast
qed

theorem textbook_scenario_prices_witness:
  "is_standard_normal_cdf std_normal_cdf
   \<and> (\<exists>c p.
         bs_calculate_option_price binary64 std_normal_cdf
           \<lparr>S = Fin 100, K = Fin 100, T = Fin 1, r = Fin (3602879701896397 / 2 ^ 56),
        sigma = Fin (3602879701896397 / 2 ^ 54)\<rparr>
           (PyStr ''Call Option'') = Inr (PyFloat (Fin c))
       \<and> \<bar>c - 10.4506\<bar> \<le> 1 / 1000
       \<and> bs_calculate_option_price binary64 std_normal_cdf
           \<lparr>S = Fin 100, K = Fin 100, T = Fin 1, r = Fin (3602879701896397 / 2 ^ 56),
        sigma = Fin (3602879701896397 / 2 ^ 54)\<rparr>
           (PyStr ''Put Option'') = Inr (PyFloat (Fin p))
       \<and> \<bar>p - 5.5735\<bar> \<le> 1 / 1000)"
  using textbook_scenario_prices [OF std_normal_cdf_is_standard] std_normal_cdf_is_standard
  by blast

end
